theory Spec2Isabelle
  imports Complex_Main
begin

section \<open>Data model (frontend/src/types/extraction.ts)\<close>

text \<open>
  A JavaScript \<^verbatim>\<open>number\<close> is a finite value, given as a real number, or one of the three
  special doubles. The arithmetic on confidences below rounds every result to the nearest
  double, as the code does; the progress estimator is stated over the real numbers and
  its bounds are shown to survive rounding. The field \<^verbatim>\<open>ConfidenceValue.value\<close> has the
  type \<^verbatim>\<open>string | number | null\<close>; the code also tests it against \<^verbatim>\<open>undefined\<close>, so that
  value is part of the model.
\<close>

datatype jsnum = Finite real | PosInfinity | NegInfinity | NaN

datatype jsvalue = Null | Undefined | Str string | Num jsnum

text \<open>JavaScript truthiness (ToBoolean) on these values.\<close>

fun truthy :: "jsvalue \<Rightarrow> bool" where
  "truthy Null = False"
| "truthy Undefined = False"
| "truthy (Str s) = (s \<noteq> [])"
| "truthy (Num (Finite x)) = (x \<noteq> 0)"
| "truthy (Num NaN) = False"
| "truthy (Num PosInfinity) = True"
| "truthy (Num NegInfinity) = True"

text \<open>\<^verbatim>\<open>a || b\<close>: the left operand when it is truthy, the right one otherwise.\<close>

definition js_or :: "jsvalue \<Rightarrow> jsvalue \<Rightarrow> jsvalue" where
  "js_or a b = (if truthy a then a else b)"

record ConfidenceValue =
  cv_value :: jsvalue
  confidence :: jsnum

record LineItem =
  description :: ConfidenceValue
  hs_code_origin :: ConfidenceValue
  hs_code_destination :: ConfidenceValue
  quantity :: ConfidenceValue
  unit_price_usd :: ConfidenceValue
  total_price_usd :: ConfidenceValue
  unit_weight_kg :: ConfidenceValue
  igst_percent :: ConfidenceValue

record BoxItem =
  bi_description :: ConfidenceValue
  bi_quantity :: ConfidenceValue

record Address =
  name :: ConfidenceValue
  address :: ConfidenceValue
  city :: ConfidenceValue
  state :: ConfidenceValue
  zip_code :: ConfidenceValue
  country :: ConfidenceValue
  phone :: ConfidenceValue
  email :: ConfidenceValue

record Box =
  box_number :: ConfidenceValue
  length_cm :: ConfidenceValue
  width_cm :: ConfidenceValue
  height_cm :: ConfidenceValue
  gross_weight_kg :: ConfidenceValue
  net_weight_kg :: ConfidenceValue
  items :: "BoxItem list"
  destination_id :: ConfidenceValue
  receiver :: "Address option"

record InvoiceData =
  invoice_number :: ConfidenceValue
  invoice_date :: ConfidenceValue
  currency :: ConfidenceValue
  total_amount :: ConfidenceValue
  exporter :: Address
  consignee :: Address
  ship_to :: Address
  ior :: Address
  line_items :: "LineItem list"

record Destination =
  dest_id :: string
  dest_name :: ConfidenceValue
  dest_address :: Address

record PackingListData =
  total_boxes :: ConfidenceValue
  total_net_weight_kg :: ConfidenceValue
  total_gross_weight_kg :: ConfidenceValue
  boxes :: "Box list"
  destinations :: "Destination list"

record ExtractionResult =
  job_id :: string
  status :: string
  overall_confidence :: jsnum
  invoice :: InvoiceData
  packing_list :: PackingListData
  warnings :: "string list"
  errors :: "string list"

record JobStatus =
  js_job_id :: string
  js_status :: string
  js_progress :: real
  js_message :: string
  js_result :: "ExtractionResult option"
  multi_address_download :: "string option"
  simplified_download :: "string option"

datatype Currency = auto | USD | INR

record ExtractionOptions =
  output_currency :: Currency
  exchange_rate :: "jsnum option"
  sync_hs_codes :: bool

section \<open>Double-precision arithmetic\<close>

text \<open>
  The operators \<^verbatim>\<open>+\<close>, \<^verbatim>\<open>/\<close> and \<^verbatim>\<open>>=\<close> of JavaScript on numbers are those of IEEE 754
  binary64: the exact result rounded to the nearest double, ties to the even significand,
  with gradual underflow and overflow to infinity. Rounding a non-negative real \<open>x\<close>
  scales it by a power of two \<open>u\<close> (the unit in the last place, never below
  \<open>1 / 2 ^ 1074\<close>) until the quotient \<open>q = x / u\<close> is at least \<open>2 ^ 52\<close> and below
  \<open>2 ^ 53\<close>, rounds \<open>q\<close> to an integer and scales back. Negative zero is not distinguished from zero: no operation
  used here tells them apart.
\<close>

definition min_ulp :: real where
  "min_ulp = 1 / 2 ^ 1074"

function scale_down :: "real \<Rightarrow> real \<Rightarrow> real \<times> real" where
  "scale_down q u = (if 2 ^ 53 \<le> q then scale_down (q / 2) (u * 2) else (q, u))"
  by pat_completeness auto
termination
proof (relation "measure (\<lambda>(q, u). nat \<lceil>q\<rceil>)")
  show "wf (measure (\<lambda>(q, u). nat \<lceil>q\<rceil>))" by simp
next
  fix q u :: real
  assume a: "2 ^ 53 \<le> q"
  have q2: "(2::real) \<le> q" using a by simp
  have up: "q \<le> of_int \<lceil>q\<rceil>" by (rule le_of_int_ceiling)
  from q2 up have "q / 2 \<le> of_int \<lceil>q\<rceil> - 1" by linarith
  then have "q / 2 \<le> of_int (\<lceil>q\<rceil> - 1)" by simp
  then have "\<lceil>q / 2\<rceil> \<le> \<lceil>q\<rceil> - 1" by (rule ceiling_le)
  moreover have "0 < \<lceil>q\<rceil>" using q2 by (simp add: less_ceiling_iff)
  ultimately show "((q / 2, u * 2), (q, u)) \<in> measure (\<lambda>(q, u). nat \<lceil>q\<rceil>)" by simp
qed

function scale_up :: "real \<Rightarrow> real \<Rightarrow> real \<times> real" where
  "scale_up q u = (if q < 2 ^ 52 \<and> min_ulp < u then scale_up (q * 2) (u / 2) else (q, u))"
  by pat_completeness auto
termination
proof (relation "measure (\<lambda>(q, u). nat \<lceil>u * 2 ^ 1074\<rceil>)")
  show "wf (measure (\<lambda>(q, u). nat \<lceil>u * 2 ^ 1074\<rceil>))" by simp
next
  fix q u :: real
  assume a: "q < 2 ^ 52 \<and> min_ulp < u"
  define y where "y = u * 2 ^ 1074"
  have y1: "1 < y" using a by (simp add: y_def min_ulp_def field_simps)
  then have c2: "2 \<le> \<lceil>y\<rceil>" by (simp add: less_ceiling_iff)
  have up: "y \<le> of_int \<lceil>y\<rceil>" by (rule le_of_int_ceiling)
  have "(2::real) \<le> of_int \<lceil>y\<rceil>" using c2 by linarith
  with up have "y / 2 \<le> of_int \<lceil>y\<rceil> - 1" by linarith
  then have "y / 2 \<le> of_int (\<lceil>y\<rceil> - 1)" by simp
  then have "\<lceil>y / 2\<rceil> \<le> \<lceil>y\<rceil> - 1" by (rule ceiling_le)
  with c2 have "nat \<lceil>y / 2\<rceil> < nat \<lceil>y\<rceil>" by simp
  moreover have "u / 2 * 2 ^ 1074 = y / 2" by (simp add: y_def)
  ultimately show "((q * 2, u / 2), (q, u)) \<in> measure (\<lambda>(q, u). nat \<lceil>u * 2 ^ 1074\<rceil>)"
    by (simp add: y_def)
qed

definition round_half_even :: "real \<Rightarrow> int" where
  "round_half_even q =
     (let f = \<lfloor>q\<rfloor>; r = q - of_int f
      in if r < 1 / 2 then f else if 1 / 2 < r then f + 1
         else if even f then f else f + 1)"

definition round_magnitude :: "real \<Rightarrow> real" where
  "round_magnitude x =
     (case scale_down x 1 of (q1, u1) \<Rightarrow>
        case scale_up q1 u1 of (q, u) \<Rightarrow> of_int (round_half_even q) * u)"

definition round_double :: "real \<Rightarrow> jsnum" where
  "round_double x =
     (let y = round_magnitude \<bar>x\<bar>
      in if 2 ^ 1024 \<le> y then (if x < 0 then NegInfinity else PosInfinity)
         else Finite (if x < 0 then - y else y))"

text \<open>The double that a decimal literal of the source, or of the JSON response, denotes.\<close>

definition number_literal :: "real \<Rightarrow> jsnum" where
  "number_literal x = round_double x"

text \<open>\<^verbatim>\<open>a + b\<close> on numbers.\<close>

fun js_add :: "jsnum \<Rightarrow> jsnum \<Rightarrow> jsnum" where
  "js_add (Finite a) (Finite b) = round_double (a + b)"
| "js_add NaN y = NaN"
| "js_add x NaN = NaN"
| "js_add PosInfinity NegInfinity = NaN"
| "js_add NegInfinity PosInfinity = NaN"
| "js_add PosInfinity y = PosInfinity"
| "js_add NegInfinity y = NegInfinity"
| "js_add x PosInfinity = PosInfinity"
| "js_add x NegInfinity = NegInfinity"

text \<open>\<^verbatim>\<open>a / xs.length\<close>: division by the length of an array, a non-negative integer.\<close>

fun js_div_length :: "jsnum \<Rightarrow> nat \<Rightarrow> jsnum" where
  "js_div_length (Finite a) n =
     (if n = 0 then (if a = 0 then NaN else if 0 < a then PosInfinity else NegInfinity)
      else round_double (a / real n))"
| "js_div_length PosInfinity n = PosInfinity"
| "js_div_length NegInfinity n = NegInfinity"
| "js_div_length NaN n = NaN"

text \<open>\<^verbatim>\<open>a >= b\<close> and \<^verbatim>\<open>a < b\<close> on numbers; every comparison with \<^verbatim>\<open>NaN\<close> is false.\<close>

fun js_ge :: "jsnum \<Rightarrow> jsnum \<Rightarrow> bool" where
  "js_ge (Finite a) (Finite b) = (b \<le> a)"
| "js_ge NaN y = False"
| "js_ge x NaN = False"
| "js_ge PosInfinity y = True"
| "js_ge x NegInfinity = True"
| "js_ge x PosInfinity = False"
| "js_ge NegInfinity y = False"

fun js_lt :: "jsnum \<Rightarrow> jsnum \<Rightarrow> bool" where
  "js_lt (Finite a) (Finite b) = (a < b)"
| "js_lt NaN y = False"
| "js_lt x NaN = False"
| "js_lt PosInfinity y = False"
| "js_lt x NegInfinity = False"
| "js_lt x PosInfinity = True"
| "js_lt NegInfinity y = True"

text \<open>The real value of a finite number.\<close>

fun finite_value :: "jsnum \<Rightarrow> real" where
  "finite_value (Finite x) = x"
| "finite_value n = 0"

section \<open>Result derivation rules (frontend/src/components/ResultsSection.tsx)\<close>

subsection \<open>Receiver resolution\<close>

text \<open>
  \<^verbatim>\<open>hasData = shipTo.name.value || shipTo.address.value || shipTo.city.value || shipTo.country.value\<close>
  (the operator associates to the left), then \<^verbatim>\<open>hasData ? shipTo : result.invoice.consignee\<close>.
\<close>

definition hasData :: "Address \<Rightarrow> jsvalue" where
  "hasData shipTo =
     js_or (js_or (js_or (cv_value (name shipTo)) (cv_value (address shipTo)))
                  (cv_value (city shipTo)))
           (cv_value (country shipTo))"

definition getReceiverAddress :: "ExtractionResult \<Rightarrow> Address" where
  "getReceiverAddress res =
     (let shipTo = ship_to (invoice res)
      in if truthy (hasData shipTo) then shipTo else consignee (invoice res))"

text \<open>
  The values the generic accessor \<^verbatim>\<open>v\<close> of the same file shows as the placeholder:
  \<^verbatim>\<open>null\<close>, \<^verbatim>\<open>undefined\<close> and the empty string. Every other value is non-empty.
\<close>

fun is_empty_value :: "jsvalue \<Rightarrow> bool" where
  "is_empty_value Null = True"
| "is_empty_value Undefined = True"
| "is_empty_value (Str s) = (s = [])"
| "is_empty_value (Num n) = False"

text \<open>The four key fields of an address, in the order the code reads them.\<close>

definition key_fields :: "Address \<Rightarrow> jsvalue list" where
  "key_fields a = [cv_value (name a), cv_value (address a), cv_value (city a), cv_value (country a)]"

subsection \<open>Multi-destination detection\<close>

text \<open>
  \<^verbatim>\<open>destinations = packing_list.destinations || []\<close> (an array is always truthy, so this is
  the array itself) and \<^verbatim>\<open>hasMultiDest = destinations.length > 1\<close>.
\<close>

definition hasMultiDest :: "ExtractionResult \<Rightarrow> bool" where
  "hasMultiDest res = (length (destinations (packing_list res)) > 1)"

text \<open>
  What the component renders, as far as it depends on \<^verbatim>\<open>hasMultiDest\<close>: the labels of the
  summary tiles, the card above the tables (the table of destinations, one row per
  destination, or the single receiver card), and the header of the boxes table.
\<close>

definition stats_labels :: "ExtractionResult \<Rightarrow> string list" where
  "stats_labels res =
     [''Invoice'', ''Amount'', ''Items'', ''Boxes'', ''Weight'']
       @ (if hasMultiDest res then [''Destinations''] else [])"

datatype AddressCard = DestinationsTable "Destination list" | ReceiverCard Address

definition address_card :: "ExtractionResult \<Rightarrow> AddressCard" where
  "address_card res =
     (if hasMultiDest res then DestinationsTable (destinations (packing_list res))
      else ReceiverCard (getReceiverAddress res))"

definition boxes_header :: "ExtractionResult \<Rightarrow> string list" where
  "boxes_header res =
     [''Box #''] @ (if hasMultiDest res then [''Dest''] else [])
       @ [''L'', ''W'', ''H'', ''Weight'', ''Items'', ''Conf'']"

subsection \<open>Confidence aggregation\<close>

datatype Color = Success | Warning | Error

definition getConfidenceColor :: "jsnum \<Rightarrow> Color" where
  "getConfidenceColor score =
     (if js_ge score (number_literal 0.9) then Success
      else if js_ge score (number_literal 0.7) then Warning
      else Error)"

text \<open>\<^verbatim>\<open>confs.reduce((s, c) => s + c, 0) / confs.length\<close>\<close>

definition avg :: "jsnum list \<Rightarrow> jsnum" where
  "avg confs = js_div_length (foldl (\<lambda>s c. js_add s c) (Finite 0) confs) (length confs)"

definition line_item_confs :: "LineItem \<Rightarrow> jsnum list" where
  "line_item_confs item =
     [confidence (description item),
      confidence (hs_code_origin item),
      confidence (quantity item),
      confidence (unit_price_usd item),
      confidence (total_price_usd item),
      confidence (unit_weight_kg item),
      confidence (igst_percent item)]"

definition line_item_avg :: "LineItem \<Rightarrow> jsnum" where
  "line_item_avg item = avg (line_item_confs item)"

definition box_confs :: "Box \<Rightarrow> jsnum list" where
  "box_confs box =
     [confidence (box_number box),
      confidence (length_cm box),
      confidence (width_cm box),
      confidence (height_cm box),
      confidence (gross_weight_kg box)]"

definition box_avg :: "Box \<Rightarrow> jsnum" where
  "box_avg box = avg (box_confs box)"

text \<open>A confidence within the unit interval, and the exact mean of finite numbers.\<close>

fun in_unit_interval :: "jsnum \<Rightarrow> bool" where
  "in_unit_interval (Finite c) = (0 \<le> c \<and> c \<le> 1)"
| "in_unit_interval n = False"

definition exact_mean :: "jsnum list \<Rightarrow> real" where
  "exact_mean confs = sum_list (map finite_value confs) / real (length confs)"

subsection \<open>Numeric formatting\<close>

text \<open>
  \<^verbatim>\<open>num.toLocaleString('en-US', { minimumFractionDigits: d, maximumFractionDigits: d })\<close>
  is a built-in of the JavaScript runtime, not code of the repository. It is modelled
  after ECMA-402 for the \<^verbatim>\<open>en-US\<close> locale: the magnitude rounded to \<open>d\<close> fraction digits
  (ties away from zero), the integer digits grouped in threes by commas, a point and
  exactly \<open>d\<close> fraction digits, a leading minus sign for a negative number; the
  infinities print as the infinity sign (three bytes in UTF-8) and \<^verbatim>\<open>NaN\<close> as
  \<^verbatim>\<open>"NaN"\<close>.
\<close>

definition digit_char :: "nat \<Rightarrow> char" where
  "digit_char n = char_of (48 + n)"

fun nat_digits :: "nat \<Rightarrow> string" where
  "nat_digits n =
     (if n < 10 then [digit_char n] else nat_digits (n div 10) @ [digit_char (n mod 10)])"

primrec frac_digits :: "nat \<Rightarrow> nat \<Rightarrow> string" where
  "frac_digits 0 f = []"
| "frac_digits (Suc d) f = frac_digits d (f div 10) @ [digit_char (f mod 10)]"

fun group_thousands_rev :: "string \<Rightarrow> string" where
  "group_thousands_rev (a # b # c # d # ds) =
     a # b # c # CHR '','' # group_thousands_rev (d # ds)"
| "group_thousands_rev ds = ds"

definition group_thousands :: "string \<Rightarrow> string" where
  "group_thousands ds = rev (group_thousands_rev (rev ds))"

definition round_half_expand :: "real \<Rightarrow> nat" where
  "round_half_expand y = nat \<lfloor>y + 1 / 2\<rfloor>"

definition format_fixed :: "nat \<Rightarrow> real \<Rightarrow> string" where
  "format_fixed d x =
     (let n = round_half_expand (\<bar>x\<bar> * 10 ^ d)
      in (if x < 0 then ''-'' else [])
           @ group_thousands (nat_digits (n div 10 ^ d))
           @ (if d = 0 then [] else CHR ''.'' # frac_digits d (n mod 10 ^ d)))"

definition infinity_sign :: string where
  "infinity_sign = [char_of (226::nat), char_of (136::nat), char_of (158::nat)]"

fun toLocaleString :: "nat \<Rightarrow> jsnum \<Rightarrow> string" where
  "toLocaleString d (Finite x) = format_fixed d x"
| "toLocaleString d PosInfinity = infinity_sign"
| "toLocaleString d NegInfinity = ''-'' @ infinity_sign"
| "toLocaleString d NaN = ''NaN''"

fun isNaN :: "jsnum \<Rightarrow> bool" where
  "isNaN NaN = True"
| "isNaN n = False"

text \<open>
  \<^verbatim>\<open>fmtCurrency\<close> and \<^verbatim>\<open>fmtWeight\<close>. The first test returns the placeholder for \<^verbatim>\<open>null\<close>,
  \<^verbatim>\<open>undefined\<close> and \<^verbatim>\<open>''\<close>; a string is then read by the built-in \<^verbatim>\<open>parseFloat\<close> (a
  parameter of the model), a number is taken as it is; \<^verbatim>\<open>NaN\<close> gives the placeholder.
\<close>

definition fmtCurrency_num :: "jsnum \<Rightarrow> string" where
  "fmtCurrency_num num = (if isNaN num then ''-'' else ''$'' @ toLocaleString 2 num)"

fun fmtCurrency :: "(string \<Rightarrow> jsnum) \<Rightarrow> jsvalue \<Rightarrow> string" where
  "fmtCurrency parseFloat Null = ''-''"
| "fmtCurrency parseFloat Undefined = ''-''"
| "fmtCurrency parseFloat (Str s) = (if s = [] then ''-'' else fmtCurrency_num (parseFloat s))"
| "fmtCurrency parseFloat (Num n) = fmtCurrency_num n"

definition fmtWeight_num :: "jsnum \<Rightarrow> string" where
  "fmtWeight_num num = (if isNaN num then ''-'' else toLocaleString 1 num @ '' kg'')"

fun fmtWeight :: "(string \<Rightarrow> jsnum) \<Rightarrow> jsvalue \<Rightarrow> string" where
  "fmtWeight parseFloat Null = ''-''"
| "fmtWeight parseFloat Undefined = ''-''"
| "fmtWeight parseFloat (Str s) = (if s = [] then ''-'' else fmtWeight_num (parseFloat s))"
| "fmtWeight parseFloat (Num n) = fmtWeight_num n"

text \<open>
  The number a formatter works on: the value itself, or what \<^verbatim>\<open>parseFloat\<close> reads from a
  string. The formatters never ask for the number of an empty value.
\<close>

fun number_of :: "(string \<Rightarrow> jsnum) \<Rightarrow> jsvalue \<Rightarrow> jsnum" where
  "number_of parseFloat (Str s) = parseFloat s"
| "number_of parseFloat (Num n) = n"
| "number_of parseFloat Null = NaN"
| "number_of parseFloat Undefined = NaN"

text \<open>
  \<^verbatim>\<open>String(x)\<close>: a string is itself; the special numbers have fixed names; the decimal
  form of a finite number (ECMAScript Number::toString) is a parameter.
\<close>

fun js_String :: "(real \<Rightarrow> string) \<Rightarrow> jsvalue \<Rightarrow> string" where
  "js_String showNumber (Str s) = s"
| "js_String showNumber (Num (Finite x)) = showNumber x"
| "js_String showNumber (Num NaN) = ''NaN''"
| "js_String showNumber (Num PosInfinity) = ''Infinity''"
| "js_String showNumber (Num NegInfinity) = ''-Infinity''"
| "js_String showNumber Null = ''null''"
| "js_String showNumber Undefined = ''undefined''"

text \<open>The generic accessor \<^verbatim>\<open>v\<close>.\<close>

definition v :: "(real \<Rightarrow> string) \<Rightarrow> ConfidenceValue \<Rightarrow> string" where
  "v showNumber cv =
     (if cv_value cv = Null \<or> cv_value cv = Undefined \<or> cv_value cv = Str []
      then ''-'' else js_String showNumber (cv_value cv))"

text \<open>
  The shape of a rendered number: the count of characters after the first point when
  all of them are decimal digits.
\<close>

definition is_digit :: "char \<Rightarrow> bool" where
  "is_digit c = (48 \<le> (of_char c :: nat) \<and> (of_char c :: nat) \<le> 57)"

definition decimal_places :: "string \<Rightarrow> nat option" where
  "decimal_places s =
     (case dropWhile (\<lambda>c. c \<noteq> CHR ''.'') s of
        [] \<Rightarrow> None
      | dot # fr \<Rightarrow> if list_all is_digit fr then Some (length fr) else None)"

text \<open>
  The destination cell of a row of the boxes table, present only under \<^verbatim>\<open>hasMultiDest\<close>:
  \<^verbatim>\<open>box.destination_id ? <Chip label={v(box.destination_id)} /> : '-'\<close>, where
  \<^verbatim>\<open>box.destination_id\<close> is an object and so truthy.
\<close>

definition box_destination_cell ::
    "(real \<Rightarrow> string) \<Rightarrow> ExtractionResult \<Rightarrow> Box \<Rightarrow> string option" where
  "box_destination_cell showNumber res box =
     (if hasMultiDest res then Some (v showNumber (destination_id box)) else None)"

text \<open>The destination cells of all rows of the boxes table, in the order of the boxes.\<close>

definition boxes_destination_column ::
    "(real \<Rightarrow> string) \<Rightarrow> ExtractionResult \<Rightarrow> string option list" where
  "boxes_destination_column showNumber res =
     map (box_destination_cell showNumber res) (boxes (packing_list res))"

section \<open>Export options (UploadSection in frontend/src/components/ProcessingSection.tsx)\<close>

definition DEFAULT_OPTIONS :: ExtractionOptions where
  "DEFAULT_OPTIONS = \<lparr> output_currency = auto, exchange_rate = None, sync_hs_codes = True \<rparr>"

text \<open>The \<^verbatim>\<open>onChange\<close> handler of the currency selector.\<close>

definition set_output_currency :: "Currency \<Rightarrow> ExtractionOptions \<Rightarrow> ExtractionOptions" where
  "set_output_currency c prev =
     prev\<lparr> output_currency := c,
           exchange_rate := (if c = auto then None else exchange_rate prev) \<rparr>"

text \<open>
  The \<^verbatim>\<open>onChange\<close> handler of the exchange-rate field:
  \<^verbatim>\<open>exchange_rate: e.target.value ? parseFloat(e.target.value) : null\<close>. The built-in
  \<^verbatim>\<open>parseFloat\<close> is a parameter.
\<close>

definition set_exchange_rate ::
    "(string \<Rightarrow> jsnum) \<Rightarrow> string \<Rightarrow> ExtractionOptions \<Rightarrow> ExtractionOptions" where
  "set_exchange_rate parseFloat txt prev =
     prev\<lparr> exchange_rate := (if txt \<noteq> [] then Some (parseFloat txt) else None) \<rparr>"

text \<open>The \<^verbatim>\<open>onChange\<close> handler of the HS-code switch.\<close>

definition set_sync_hs_codes :: "bool \<Rightarrow> ExtractionOptions \<Rightarrow> ExtractionOptions" where
  "set_sync_hs_codes b prev = prev\<lparr> sync_hs_codes := b \<rparr>"

text \<open>
  \<^verbatim>\<open>showExchangeRate = options.output_currency !== 'auto'\<close>; the exchange-rate field is
  rendered inside \<^verbatim>\<open><Collapse in={showExchangeRate}>\<close>, which collapses the field but keeps
  it mounted with its handler; the handler itself does not test the currency.
\<close>

definition showExchangeRate :: "ExtractionOptions \<Rightarrow> bool" where
  "showExchangeRate opts = (output_currency opts \<noteq> auto)"

text \<open>The invariant of the options: no exchange rate while the currency is \<^verbatim>\<open>auto\<close>.\<close>

definition options_inv :: "ExtractionOptions \<Rightarrow> bool" where
  "options_inv opts = (output_currency opts = auto \<longrightarrow> exchange_rate opts = None)"

section \<open>Processing view (frontend/src/components/ProcessingSection.tsx)\<close>

text \<open>
  The component shows the error alert, and inside it the retry button, under
  \<^verbatim>\<open>{error && (... {onRetry && (<Button ...>Try Again</Button>)} ...)}\<close>, and the step
  indicators under \<^verbatim>\<open>{!error && ...}\<close>. The prop \<^verbatim>\<open>error\<close> is a \<^verbatim>\<open>string | null\<close>: it is
  truthy when it is a non-empty string. The application always passes \<^verbatim>\<open>onRetry\<close>.
\<close>

definition error_truthy :: "string option \<Rightarrow> bool" where
  "error_truthy e = (case e of None \<Rightarrow> False | Some msg \<Rightarrow> msg \<noteq> [])"

definition error_alert_shown :: "string option \<Rightarrow> bool" where
  "error_alert_shown e = error_truthy e"

definition retry_button_shown :: "string option \<Rightarrow> bool \<Rightarrow> bool" where
  "retry_button_shown e onRetry = (error_truthy e \<and> onRetry)"

definition step_indicators_shown :: "string option \<Rightarrow> bool" where
  "step_indicators_shown e = (\<not> error_truthy e)"

section \<open>The application (App)\<close>

datatype ViewState = upload | processing | results

record File =
  file_name :: string
  file_type :: string
  file_size :: nat

record Toast =
  toast_open :: bool
  toast_message :: string
  toast_severity :: Color

text \<open>
  The state of the component: its \<^verbatim>\<open>useState\<close> cells and the \<^verbatim>\<open>progressIntervalRef\<close>.
  A live interval is identified by the \<^verbatim>\<open>startTime\<close> its callback closes over. Two
  fields record effects: \<open>extract_calls\<close> lists the calls of \<^verbatim>\<open>extractDocuments\<close> issued so
  far (oldest first), and \<open>results_timeout\<close> says that the callback of
  \<^verbatim>\<open>setTimeout(() => setView('results'), 500)\<close> is pending.
\<close>

record App =
  view :: ViewState
  files :: "File list"
  lastOptions :: "ExtractionOptions option"
  progress :: real
  progressMessage :: string
  error :: "string option"
  result :: "ExtractionResult option"
  jobId :: string
  toast :: Toast
  progressIntervalRef :: "int option"
  extract_calls :: "(File list \<times> ExtractionOptions option) list"
  results_timeout :: bool

definition initial_App :: App where
  "initial_App =
     \<lparr> view = upload, files = [], lastOptions = None, progress = 0, progressMessage = [],
       error = None, result = None, jobId = [],
       toast = \<lparr> toast_open = False, toast_message = [], toast_severity = Error \<rparr>,
       progressIntervalRef = None, extract_calls = [], results_timeout = False \<rparr>"

subsection \<open>Progress estimator\<close>

record Step =
  target :: real
  step_message :: string
  delay :: int

definition steps :: "Step list" where
  "steps =
     [\<lparr> target = 10, step_message = ''Uploading files...'', delay = 0 \<rparr>,
      \<lparr> target = 30, step_message = ''Extracting text from PDFs...'', delay = 1500 \<rparr>,
      \<lparr> target = 55, step_message = ''Analyzing invoice with AI...'', delay = 4000 \<rparr>,
      \<lparr> target = 70, step_message = ''Extracting packing list data...'', delay = 7000 \<rparr>,
      \<lparr> target = 85, step_message = ''Generating Excel sheets...'', delay = 12000 \<rparr>]"

definition clearProgressInterval :: "App \<Rightarrow> App" where
  "clearProgressInterval s =
     (if progressIntervalRef s \<noteq> None then s\<lparr> progressIntervalRef := None \<rparr> else s)"

text \<open>
  \<^verbatim>\<open>let currentStep = steps[0]; for (const step of steps) { if (elapsed >= step.delay) currentStep = step; }\<close>
\<close>

definition currentStep :: "int \<Rightarrow> Step" where
  "currentStep elapsed =
     foldl (\<lambda>cur step. if elapsed \<ge> delay step then step else cur) (hd steps) steps"

text \<open>The updater passed to \<^verbatim>\<open>setProgress\<close> by the interval callback.\<close>

definition progress_step :: "Step \<Rightarrow> real \<Rightarrow> real" where
  "progress_step cs prev =
     (if prev < target cs
      then (let increment = max 0.3 ((target cs - prev) * 0.06)
            in min (target cs) (prev + increment))
      else prev)"

text \<open>
  The same updater when every arithmetic operation and every literal is rounded by
  \<open>fl\<close>, as it is on IEEE doubles; with the identity for \<open>fl\<close> it is \<open>progress_step\<close>.
\<close>

definition progress_step_rounded :: "(real \<Rightarrow> real) \<Rightarrow> Step \<Rightarrow> real \<Rightarrow> real" where
  "progress_step_rounded fl cs prev =
     (if prev < target cs
      then (let increment = max (fl 0.3) (fl (fl (target cs - prev) * fl 0.06))
            in min (target cs) (fl (prev + increment)))
      else prev)"

text \<open>
  \<^verbatim>\<open>startProgressSimulation\<close> at the time \<open>now\<close> (the value of \<^verbatim>\<open>Date.now()\<close>), and one run of
  the interval callback at a later reading \<open>now\<close> of the clock. A cleared interval does
  not run.
\<close>

definition startProgressSimulation :: "int \<Rightarrow> App \<Rightarrow> App" where
  "startProgressSimulation now s = (clearProgressInterval s)\<lparr> progressIntervalRef := Some now \<rparr>"

definition interval_callback :: "int \<Rightarrow> App \<Rightarrow> App" where
  "interval_callback now s =
     (case progressIntervalRef s of
        None \<Rightarrow> s
      | Some startTime \<Rightarrow>
          (let elapsed = now - startTime;
               cs = currentStep elapsed
           in s\<lparr> progress := progress_step cs (progress s),
                 progressMessage := step_message cs \<rparr>))"

text \<open>A run of the estimator: the callback at successive clock readings, and the
  progress values it emits.\<close>

fun run_interval :: "int list \<Rightarrow> App \<Rightarrow> App" where
  "run_interval [] s = s"
| "run_interval (now # nows) s = run_interval nows (interval_callback now s)"

fun emitted :: "int list \<Rightarrow> App \<Rightarrow> real list" where
  "emitted [] s = []"
| "emitted (now # nows) s =
     progress (interval_callback now s) # emitted nows (interval_callback now s)"

subsection \<open>Orchestrator\<close>

text \<open>\<^verbatim>\<open>Array.prototype.join\<close> on strings.\<close>

fun join :: "string \<Rightarrow> string list \<Rightarrow> string" where
  "join sep [] = []"
| "join sep [x] = x"
| "join sep (x # y # ys) = x @ sep @ join sep (y # ys)"

text \<open>
  \<^verbatim>\<open>handleProcess\<close> is asynchronous. Its first part runs up to the \<^verbatim>\<open>await\<close> and issues
  the call of \<^verbatim>\<open>extractDocuments\<close>; its second part runs when the promise settles, with
  the response or with what was thrown.
\<close>

definition handleProcess_begin ::
    "int \<Rightarrow> File list \<Rightarrow> ExtractionOptions option \<Rightarrow> App \<Rightarrow> App" where
  "handleProcess_begin now selectedFiles options s =
     (startProgressSimulation now
        (s\<lparr> files := selectedFiles, lastOptions := options, view := processing,
             progress := 0, error := None, result := None, jobId := [] \<rparr>))
       \<lparr> extract_calls := extract_calls s @ [(selectedFiles, options)] \<rparr>"

datatype Thrown = ErrorObject string | OtherThrown

datatype Settled = Fulfilled JobStatus | Rejected Thrown

text \<open>\<^verbatim>\<open>extractionResult?.status === 'failed'\<close>\<close>

definition status_failed :: "ExtractionResult option \<Rightarrow> bool" where
  "status_failed extractionResult =
     (case extractionResult of None \<Rightarrow> False | Some r \<Rightarrow> status r = ''failed'')"

definition displayMsg :: "ExtractionResult \<Rightarrow> string" where
  "displayMsg r =
     (let errorMsgs = errors r @ warnings r
      in if length errorMsgs > 0 then join '' | '' errorMsgs
         else ''Extraction failed. Please try again.'')"

text \<open>The branch of the failed status, up to its \<^verbatim>\<open>return\<close>.\<close>

definition settle_failed :: "ExtractionResult \<Rightarrow> App \<Rightarrow> App" where
  "settle_failed r s =
     (let msg = displayMsg r
      in s\<lparr> error := Some msg,
             progressMessage := ''Processing failed.'',
             toast := \<lparr> toast_open = True, toast_message = msg, toast_severity = Error \<rparr> \<rparr>)"

text \<open>
  The toast of the warnings, under
  \<^verbatim>\<open>extractionResult?.warnings && extractionResult.warnings.length > 0\<close>.
\<close>

definition warnings_toast :: "ExtractionResult option \<Rightarrow> Toast \<Rightarrow> Toast" where
  "warnings_toast extractionResult old =
     (case extractionResult of
        None \<Rightarrow> old
      | Some r \<Rightarrow>
          if length (warnings r) > 0
          then \<lparr> toast_open = True, toast_message = join '' | '' (warnings r),
                 toast_severity = Warning \<rparr>
          else old)"

text \<open>The rest of the \<^verbatim>\<open>try\<close> block, for a status that is not failed.\<close>

definition settle_done :: "JobStatus \<Rightarrow> App \<Rightarrow> App" where
  "settle_done jobStatus s =
     s\<lparr> progress := 100,
         progressMessage := ''Done!'',
         jobId := js_job_id jobStatus,
         result := js_result jobStatus,
         toast := warnings_toast (js_result jobStatus) (toast s),
         results_timeout := True \<rparr>"

text \<open>The \<^verbatim>\<open>catch\<close> block, after it has cleared the interval.\<close>

definition settle_caught :: "Thrown \<Rightarrow> App \<Rightarrow> App" where
  "settle_caught err s =
     (let message = (case err of ErrorObject m \<Rightarrow> m
                     | OtherThrown \<Rightarrow> ''An unexpected error occurred.'')
      in s\<lparr> error := Some message,
             progressMessage := ''Processing failed.'',
             toast := \<lparr> toast_open = True, toast_message = message,
                        toast_severity = Error \<rparr> \<rparr>)"

definition handleProcess_settle :: "Settled \<Rightarrow> App \<Rightarrow> App" where
  "handleProcess_settle outcome s =
     (case outcome of
        Fulfilled jobStatus \<Rightarrow>
          (let s1 = clearProgressInterval s
           in case js_result jobStatus of
                None \<Rightarrow> settle_done jobStatus s1
              | Some r \<Rightarrow>
                  if status r = ''failed'' then settle_failed r s1
                  else settle_done jobStatus s1)
      | Rejected err \<Rightarrow> settle_caught err (clearProgressInterval s))"

text \<open>The callback of the \<^verbatim>\<open>setTimeout\<close>, when it is pending.\<close>

definition timeout_callback :: "App \<Rightarrow> App" where
  "timeout_callback s =
     (if results_timeout s then s\<lparr> view := results, results_timeout := False \<rparr> else s)"

definition handleRetry :: "int \<Rightarrow> App \<Rightarrow> App" where
  "handleRetry now s =
     (if length (files s) > 0 then handleProcess_begin now (files s) (lastOptions s) s
      else s\<lparr> view := upload, error := None, progress := 0, progressMessage := [] \<rparr>)"

definition handleReset :: "App \<Rightarrow> App" where
  "handleReset s =
     (clearProgressInterval s)
       \<lparr> view := upload, files := [], progress := 0, progressMessage := [],
         error := None, result := None, jobId := [], lastOptions := None \<rparr>"

text \<open>
  The \<^verbatim>\<open>onClose\<close> handler of the toast and of its alert:
  \<^verbatim>\<open>setToast((prev) => ({ ...prev, open: false }))\<close>.
\<close>

definition closeToast :: "App \<Rightarrow> App" where
  "closeToast s = s\<lparr> toast := (toast s)\<lparr> toast_open := False \<rparr> \<rparr>"

text \<open>What the application renders in its main container.\<close>

datatype MainContent =
    UploadView
  | ProcessingView real string "string option"
  | ResultsView ExtractionResult string
  | Nothing

definition main_content :: "App \<Rightarrow> MainContent" where
  "main_content s =
     (case view s of
        upload \<Rightarrow> UploadView
      | processing \<Rightarrow> ProcessingView (progress s) (progressMessage s) (error s)
      | results \<Rightarrow> (case result s of Some r \<Rightarrow> ResultsView r (jobId s) | None \<Rightarrow> Nothing))"

text \<open>
  The error sub-state of the processing view with its retry affordance: the processing
  view is shown and renders the retry button (\<^verbatim>\<open>onRetry={handleRetry}\<close> is always passed).
\<close>

definition retry_offered :: "App \<Rightarrow> bool" where
  "retry_offered s = (view s = processing \<and> retry_button_shown (error s) True)"

subsection \<open>Events\<close>

text \<open>
  Everything that changes the state of the application: a submission from the upload
  view, a run of the interval callback, the settling of the extraction call, the
  callback of the display delay, the two buttons of the processing and results views,
  and the closing of the toast. The fields of no other component are written.
\<close>

datatype AppEvent =
    Submit int "File list" "ExtractionOptions option"
  | Tick int
  | Settle Settled
  | DelayElapsed
  | Retry int
  | Reset
  | ToastClosed

fun app_step :: "AppEvent \<Rightarrow> App \<Rightarrow> App" where
  "app_step (Submit now selectedFiles options) s = handleProcess_begin now selectedFiles options s"
| "app_step (Tick now) s = interval_callback now s"
| "app_step (Settle outcome) s = handleProcess_settle outcome s"
| "app_step DelayElapsed s = timeout_callback s"
| "app_step (Retry now) s = handleRetry now s"
| "app_step Reset s = handleReset s"
| "app_step ToastClosed s = closeToast s"

text \<open>A confirmed success: the call is fulfilled and the status of its result is not
  \<^verbatim>\<open>'failed'\<close>.\<close>

fun confirmed_success :: "AppEvent \<Rightarrow> bool" where
  "confirmed_success (Settle (Fulfilled jobStatus)) = (\<not> status_failed (js_result jobStatus))"
| "confirmed_success e = False"

text \<open>The state while the extraction call of a submission is outstanding: after the
  first part of \<^verbatim>\<open>handleProcess\<close> and any number of runs of the interval callback.\<close>

definition in_flight ::
    "int \<Rightarrow> File list \<Rightarrow> ExtractionOptions option \<Rightarrow> int list \<Rightarrow> App \<Rightarrow> App" where
  "in_flight now selectedFiles options nows s =
     run_interval nows (handleProcess_begin now selectedFiles options s)"


subsection \<open>What the user interface can trigger\<close>








section \<open>Concrete inputs\<close>

text \<open>Values on which the definitions are evaluated below.\<close>

definition empty_cv :: ConfidenceValue where
  "empty_cv = \<lparr> cv_value = Null, confidence = Finite 0 \<rparr>"

definition text_cv :: "string \<Rightarrow> ConfidenceValue" where
  "text_cv s = \<lparr> cv_value = Str s, confidence = number_literal 0.95 \<rparr>"

definition empty_address :: Address where
  "empty_address =
     \<lparr> name = empty_cv, address = empty_cv, city = empty_cv, state = empty_cv,
       zip_code = empty_cv, country = empty_cv, phone = empty_cv, email = empty_cv \<rparr>"

definition acme_address :: Address where
  "acme_address = empty_address\<lparr> name := text_cv ''Acme Imports'' \<rparr>"

definition pune_address :: Address where
  "pune_address = empty_address\<lparr> city := text_cv ''Pune'' \<rparr>"

definition zero_name_address :: Address where
  "zero_name_address =
     empty_address\<lparr> name := \<lparr> cv_value = Num (Finite 0), confidence = Finite (1 / 2) \<rparr> \<rparr>"

definition example_invoice :: "Address \<Rightarrow> InvoiceData" where
  "example_invoice shipTo =
     \<lparr> invoice_number = text_cv ''INV-1'', invoice_date = empty_cv, currency = empty_cv,
       total_amount = empty_cv, exporter = empty_address, consignee = acme_address,
       ship_to = shipTo, ior = empty_address, line_items = [] \<rparr>"

definition example_destination :: "string \<Rightarrow> Destination" where
  "example_destination i =
     \<lparr> dest_id = i, dest_name = text_cv i, dest_address = empty_address \<rparr>"

definition example_packing_list :: "Destination list \<Rightarrow> PackingListData" where
  "example_packing_list ds =
     \<lparr> total_boxes = empty_cv, total_net_weight_kg = empty_cv,
       total_gross_weight_kg = empty_cv, boxes = [], destinations = ds \<rparr>"

definition example_result ::
    "string \<Rightarrow> Address \<Rightarrow> Destination list \<Rightarrow> string list \<Rightarrow> string list \<Rightarrow> ExtractionResult" where
  "example_result st shipTo ds ws es =
     \<lparr> job_id = ''job-1'', status = st, overall_confidence = number_literal 0.8,
       invoice = example_invoice shipTo, packing_list = example_packing_list ds,
       warnings = ws, errors = es \<rparr>"

definition example_line_item :: LineItem where
  "example_line_item =
     \<lparr> description = \<lparr> cv_value = Str ''Cotton shirts'', confidence = Finite 1 \<rparr>,
       hs_code_origin = \<lparr> cv_value = Str ''610910'', confidence = number_literal 0.9 \<rparr>,
       hs_code_destination = empty_cv,
       quantity = \<lparr> cv_value = Num (Finite 10), confidence = Finite 1 \<rparr>,
       unit_price_usd = \<lparr> cv_value = Num (Finite 2.5), confidence = number_literal 0.8 \<rparr>,
       total_price_usd = \<lparr> cv_value = Num (Finite 25), confidence = number_literal 0.8 \<rparr>,
       unit_weight_kg = \<lparr> cv_value = Null, confidence = Finite 0 \<rparr>,
       igst_percent = \<lparr> cv_value = Num (Finite 18), confidence = number_literal 0.7 \<rparr> \<rparr>"

definition example_box :: Box where
  "example_box =
     \<lparr> box_number = \<lparr> cv_value = Num (Finite 1), confidence = Finite 1 \<rparr>,
       length_cm = \<lparr> cv_value = Num (Finite 40), confidence = number_literal 0.95 \<rparr>,
       width_cm = \<lparr> cv_value = Num (Finite 30), confidence = number_literal 0.95 \<rparr>,
       height_cm = \<lparr> cv_value = Num (Finite 20), confidence = number_literal 0.95 \<rparr>,
       gross_weight_kg = \<lparr> cv_value = Num (Finite 12.5), confidence = number_literal 0.8 \<rparr>,
       net_weight_kg = empty_cv, items = [],
       destination_id = \<lparr> cv_value = Str ''D1'', confidence = number_literal 0.9 \<rparr>,
       receiver = None \<rparr>"

text \<open>A box whose five confidences are exact doubles with the exact mean 9/10.\<close>

definition dyadic_box :: Box where
  "dyadic_box =
     example_box\<lparr> box_number := \<lparr> cv_value = Num (Finite 2), confidence = Finite 1 \<rparr>,
                   length_cm := \<lparr> cv_value = Num (Finite 40), confidence = Finite 1 \<rparr>,
                   width_cm := \<lparr> cv_value = Num (Finite 30), confidence = Finite 1 \<rparr>,
                   height_cm := \<lparr> cv_value = Num (Finite 20), confidence = Finite 1 \<rparr>,
                   gross_weight_kg := \<lparr> cv_value = Num (Finite 9), confidence = Finite (1 / 2) \<rparr>,
                   destination_id := \<lparr> cv_value = Str ''D2'', confidence = Finite 1 \<rparr> \<rparr>"

text \<open>A box whose confidences are the literals 0.85, 0.95, 0.9, 0.95, 0.85.\<close>

definition boundary_box :: Box where
  "boundary_box =
     example_box\<lparr> box_number := \<lparr> cv_value = Num (Finite 3), confidence = number_literal 0.85 \<rparr>,
                   length_cm := \<lparr> cv_value = Num (Finite 40), confidence = number_literal 0.95 \<rparr>,
                   width_cm := \<lparr> cv_value = Num (Finite 30), confidence = number_literal 0.9 \<rparr>,
                   height_cm := \<lparr> cv_value = Num (Finite 20), confidence = number_literal 0.95 \<rparr>,
                   gross_weight_kg := \<lparr> cv_value = Num (Finite 9), confidence = number_literal 0.85 \<rparr> \<rparr>"

definition usd_options :: ExtractionOptions where
  "usd_options =
     \<lparr> output_currency = USD, exchange_rate = Some (Finite 0.012), sync_hs_codes = True \<rparr>"

definition example_file :: "string \<Rightarrow> File" where
  "example_file n = \<lparr> file_name = n, file_type = ''application/pdf'', file_size = 1024 \<rparr>"

definition example_job :: "ExtractionResult option \<Rightarrow> JobStatus" where
  "example_job r =
     \<lparr> js_job_id = ''job-1'', js_status = ''completed'', js_progress = 100,
       js_message = ''done'', js_result = r, multi_address_download = None,
       simplified_download = None \<rparr>"

definition two_files :: "File list" where
  "two_files = [example_file ''invoice.pdf'', example_file ''packing.pdf'']"

text \<open>A submission at clock reading 1000 followed by two runs of the interval callback.\<close>

definition example_run :: App where
  "example_run =
     run_interval [1150, 1300]
       (handleProcess_begin 1000 two_files (Some DEFAULT_OPTIONS) initial_App)"

definition success_job :: JobStatus where
  "success_job = example_job (Some (example_result ''success'' pune_address [] [] []))"

definition page_unreadable_job :: JobStatus where
  "page_unreadable_job =
     example_job (Some (example_result ''failed'' empty_address [] [] [''page unreadable'']))"

text \<open>A failed result whose only error message is the empty string.\<close>

definition empty_message_job :: JobStatus where
  "empty_message_job = example_job (Some (example_result ''failed'' empty_address [] [] [[]]))"

definition null_result_job :: JobStatus where
  "null_result_job = example_job None"

text \<open>A result with two destinations and one box for each.\<close>

definition two_destination_result :: ExtractionResult where
  "two_destination_result =
     (example_result ''success'' pune_address
        [example_destination ''D1'', example_destination ''D2''] [] [])
       \<lparr> packing_list :=
           (example_packing_list [example_destination ''D1'', example_destination ''D2''])
             \<lparr> boxes := [example_box, dyadic_box] \<rparr> \<rparr>"



section \<open>Theorems\<close>

subsection \<open>Receiver resolution\<close>

lemma truthy_js_or: "truthy (js_or a b) = (truthy a \<or> truthy b)"
  by (simp add: js_or_def)

lemma truthy_hasData: "truthy (hasData a) = (\<exists>x \<in> set (key_fields a). truthy x)"
  by (simp add: hasData_def key_fields_def truthy_js_or)

lemma getReceiverAddress_truthy:
  "getReceiverAddress res =
     (if \<exists>x \<in> set (key_fields (ship_to (invoice res))). truthy x
      then ship_to (invoice res) else consignee (invoice res))"
  by (simp add: getReceiverAddress_def Let_def truthy_hasData)

lemma truthy_iff: "truthy x = (\<not> is_empty_value x \<and> x \<noteq> Num (Finite 0) \<and> x \<noteq> Num NaN)"
proof (cases x)
  case (Num n)
  then show ?thesis by (cases n) simp_all
qed simp_all

text \<open>
  C4, as the code has it. Receiver resolution returns the ship-to address exactly when one
  of the four key fields name, address, city, country of the ship-to address is truthy:
  a value that is not empty (not \<^verbatim>\<open>null\<close>, \<^verbatim>\<open>undefined\<close> or \<^verbatim>\<open>''\<close>) and is not the number 0 or
  \<^verbatim>\<open>NaN\<close>. Otherwise it returns the consignee; so it returns the consignee whenever all
  four fields are empty, and the ship-to address whenever one of them is a non-empty
  string.
\<close>

theorem getReceiverAddress_resolution:
  "getReceiverAddress res =
     (if \<exists>x \<in> set (key_fields (ship_to (invoice res))).
           \<not> is_empty_value x \<and> x \<noteq> Num (Finite 0) \<and> x \<noteq> Num NaN
      then ship_to (invoice res) else consignee (invoice res))"
  unfolding getReceiverAddress_truthy truthy_iff ..

theorem getReceiverAddress_resolution_witness:
  "getReceiverAddress (example_result ''success'' pune_address [] [] []) = pune_address
   \<and> getReceiverAddress (example_result ''success'' empty_address [] [] []) = acme_address"
  using getReceiverAddress_resolution [of "example_result ''success'' pune_address [] [] []"]
        getReceiverAddress_resolution [of "example_result ''success'' empty_address [] [] []"]
  by (simp add: example_result_def example_invoice_def pune_address_def empty_address_def
        key_fields_def empty_cv_def text_cv_def)

text \<open>
  C4 as stated fails: a ship-to address whose name is the number 0 has a key field with a
  non-empty value (the accessor \<^verbatim>\<open>v\<close> shows it as a number, not as the placeholder), yet
  the resolution returns the consignee.
\<close>

theorem getReceiverAddress_zero_counterexample:
  "\<not> is_empty_value (cv_value (name (ship_to (invoice
        (example_result ''success'' zero_name_address [] [] [])))))
   \<and> getReceiverAddress (example_result ''success'' zero_name_address [] [] []) = acme_address
   \<and> getReceiverAddress (example_result ''success'' zero_name_address [] [] [])
         \<noteq> zero_name_address"
  by (simp add: getReceiverAddress_def hasData_def js_or_def example_result_def
        example_invoice_def zero_name_address_def acme_address_def empty_address_def
        empty_cv_def text_cv_def)

subsection \<open>Double-precision arithmetic\<close>

declare scale_down.simps [simp del] scale_up.simps [simp del]

lemma scale_down_small: "q < 2 ^ 53 \<Longrightarrow> scale_down q u = (q, u)"
  by (simp add: scale_down.simps)

lemma scale_up_invariants:
  assumes "scale_up q u = (q', u')" and "0 \<le> q" and "\<exists>i::nat. u = 1 / 2 ^ i"
  shows "q' * u' = q * u \<and> 0 \<le> q' \<and> (\<exists>j::nat. u' = 1 / 2 ^ j)"
  using assms
proof (induction q u rule: scale_up.induct)
  case (1 q u)
  show ?case
  proof (cases "q < 2 ^ 52 \<and> min_ulp < u")
    case True
    with "1.prems"(1) have rec: "scale_up (q * 2) (u / 2) = (q', u')"
      by (simp add: scale_up.simps [of q u])
    have nonneg: "0 \<le> q * 2" using "1.prems"(2) by simp
    from "1.prems"(3) obtain i :: nat where "u = 1 / 2 ^ i" by blast
    then have "u / 2 = 1 / 2 ^ Suc i" by simp
    then have pow: "\<exists>i::nat. u / 2 = 1 / 2 ^ i" by blast
    from "1.IH" [OF True rec nonneg pow] show ?thesis by simp
  next
    case False
    with "1.prems"(1) have "q' = q" and "u' = u"
      by (auto simp: scale_up.simps [of q u] split: if_splits)
    with "1.prems" show ?thesis by simp
  qed
qed

lemma round_half_even_le: "q \<le> of_int N \<Longrightarrow> round_half_even q \<le> N"
proof -
  assume a: "q \<le> of_int N"
  then have f: "\<lfloor>q\<rfloor> \<le> N" by (simp add: floor_le_iff)
  show ?thesis
  proof (cases "q = of_int \<lfloor>q\<rfloor>")
    case True
    then have "q - of_int \<lfloor>q\<rfloor> < 1 / 2" by simp
    with f show ?thesis by (simp add: round_half_even_def Let_def)
  next
    case False
    have "of_int \<lfloor>q\<rfloor> \<le> q" by (rule of_int_floor_le)
    with False have "of_int \<lfloor>q\<rfloor> < q" by linarith
    with a have "(of_int \<lfloor>q\<rfloor> :: real) < of_int N" by linarith
    then have "\<lfloor>q\<rfloor> < N" by simp
    then have "\<lfloor>q\<rfloor> + 1 \<le> N" by simp
    with f show ?thesis by (simp add: round_half_even_def Let_def)
  qed
qed

lemma round_half_even_ge: "of_int N \<le> q \<Longrightarrow> N \<le> round_half_even q"
proof -
  assume "of_int N \<le> q"
  then have "N \<le> \<lfloor>q\<rfloor>" by (simp add: le_floor_iff)
  then show ?thesis by (simp add: round_half_even_def Let_def)
qed

lemma round_magnitude_bounds:
  assumes "0 \<le> x" and "x \<le> real k" and "real k < 2 ^ 53"
  shows "0 \<le> round_magnitude x \<and> round_magnitude x \<le> real k"
proof -
  from assms have small: "x < 2 ^ 53" by simp
  obtain q u where su: "scale_up x 1 = (q, u)" by (cases "scale_up x 1")
  have "\<exists>i::nat. (1::real) = 1 / 2 ^ i" by (rule exI [of _ 0]) simp
  from scale_up_invariants [OF su assms(1) this]
  obtain j :: nat where prod: "q * u = x" and q0: "0 \<le> q" and u: "u = 1 / 2 ^ j" by auto
  have val: "round_magnitude x = of_int (round_half_even q) * u"
    by (simp add: round_magnitude_def scale_down_small [OF small] su)
  have upos: "0 < u" by (simp add: u)
  have "q = x * 2 ^ j" using prod by (simp add: u field_simps)
  also have "\<dots> \<le> real k * 2 ^ j" using assms(2) by simp
  also have "\<dots> = of_int (int (k * 2 ^ j))" by simp
  finally have "round_half_even q \<le> int (k * 2 ^ j)" by (rule round_half_even_le)
  then have "(of_int (round_half_even q) :: real) \<le> of_int (int (k * 2 ^ j))"
    by (simp only: of_int_le_iff)
  then have "of_int (round_half_even q) * u \<le> of_int (int (k * 2 ^ j)) * u"
    using upos by (simp only: mult_le_cancel_right_pos)
  also have "of_int (int (k * 2 ^ j)) * u = real k" by (simp add: u)
  finally have hi: "round_magnitude x \<le> real k" by (simp add: val)
  have "(of_int 0 :: real) \<le> q" using q0 by simp
  then have "0 \<le> round_half_even q" by (rule round_half_even_ge)
  then have "0 \<le> (of_int (round_half_even q) :: real)" by simp
  with upos have lo: "0 \<le> round_magnitude x" by (simp add: val)
  from lo hi show ?thesis ..
qed

lemma round_double_bounds:
  assumes "0 \<le> x" and "x \<le> real k" and "real k < 2 ^ 53"
  shows "\<exists>y. round_double x = Finite y \<and> 0 \<le> y \<and> y \<le> real k"
proof -
  from round_magnitude_bounds [OF assms]
  have lo: "0 \<le> round_magnitude x" and hi: "round_magnitude x \<le> real k" by simp_all
  have "(2::real) ^ 53 \<le> 2 ^ 1024" by (rule power_increasing) simp_all
  with hi assms(3) have "round_magnitude x < 2 ^ 1024" by linarith
  with assms(1) lo hi show ?thesis by (simp add: round_double_def Let_def)
qed

lemma foldl_js_add_bounds:
  assumes "list_all in_unit_interval cs" and "0 \<le> s" and "s \<le> real n"
    and "real (n + length cs) < 2 ^ 53"
  shows "\<exists>t. foldl (\<lambda>s c. js_add s c) (Finite s) cs = Finite t \<and> 0 \<le> t
           \<and> t \<le> real (n + length cs)"
  using assms
proof (induction cs arbitrary: s n)
  case Nil
  then show ?case by simp
next
  case (Cons c cs)
  from Cons.prems(1) obtain a where c: "c = Finite a" and a: "0 \<le> a" "a \<le> 1"
    by (cases c) auto
  have range: "0 \<le> s + a" "s + a \<le> real (Suc n)" using a Cons.prems by simp_all
  have small: "real (Suc n) < 2 ^ 53" using Cons.prems(4) by simp
  from round_double_bounds [OF range small]
  obtain y where y: "round_double (s + a) = Finite y" "0 \<le> y" "y \<le> real (Suc n)" by blast
  have rest: "list_all in_unit_interval cs" using Cons.prems(1) by simp
  have len: "real (Suc n + length cs) < 2 ^ 53" using Cons.prems(4) by simp
  from Cons.IH [OF rest y(2) y(3) len] show ?case by (simp add: c y(1))
qed

lemma avg_in_unit_interval:
  assumes "list_all in_unit_interval confs" and "confs \<noteq> []" and "real (length confs) < 2 ^ 53"
  shows "in_unit_interval (avg confs)"
proof -
  have "real (0 + length confs) < 2 ^ 53" using assms(3) by simp
  from foldl_js_add_bounds [OF assms(1) _ _ this, of 0]
  obtain t where t: "foldl (\<lambda>s c. js_add s c) (Finite 0) confs = Finite t"
    "0 \<le> t" "t \<le> real (length confs)" by auto
  have len: "0 < real (length confs)" using assms(2) by simp
  have q: "0 \<le> t / real (length confs)" "t / real (length confs) \<le> real 1"
    using t len by (simp_all add: divide_le_eq)
  from round_double_bounds [OF q] obtain y
    where "round_double (t / real (length confs)) = Finite y" "0 \<le> y" "y \<le> 1" by auto
  with assms(2) show ?thesis by (simp add: avg_def t(1))
qed

lemma scale_up_post:
  "scale_up q u = (q', u') \<Longrightarrow> \<not> (q' < 2 ^ 52 \<and> min_ulp < u')"
proof (induction q u rule: scale_up.induct)
  case (1 q u)
  show ?case
  proof (cases "q < 2 ^ 52 \<and> min_ulp < u")
    case True
    with "1.prems" have "scale_up (q * 2) (u / 2) = (q', u')"
      by (simp add: scale_up.simps [of q u])
    from "1.IH" [OF True this] show ?thesis .
  next
    case False
    with "1.prems" have "q' = q" and "u' = u"
      by (auto simp: scale_up.simps [of q u] split: if_splits)
    with False show ?thesis by simp
  qed
qed

lemma round_half_even_error: "\<bar>of_int (round_half_even q) - q\<bar> \<le> 1 / 2"
proof -
  have lo: "of_int \<lfloor>q\<rfloor> \<le> q" by (rule of_int_floor_le)
  have hi: "q < of_int \<lfloor>q\<rfloor> + 1" by linarith
  from lo hi show ?thesis
    by (auto simp: round_half_even_def Let_def abs_le_iff)
qed

lemma half_power_le:
  fixes j k :: nat
  assumes "(1::real) / 2 ^ j < 1 / 2 ^ k"
  shows "(1::real) / 2 ^ j \<le> 1 / 2 ^ Suc k"
proof -
  have "k < j"
  proof (rule ccontr)
    assume "\<not> k < j"
    then have "j \<le> k" by simp
    then have "(2::real) ^ j \<le> 2 ^ k" by (rule power_increasing) simp
    then have "(1::real) / 2 ^ k \<le> 1 / 2 ^ j" by (simp add: field_simps)
    with assms show False by simp
  qed
  then have "Suc k \<le> j" by simp
  then have "(2::real) ^ Suc k \<le> 2 ^ j" by (rule power_increasing) simp
  then show ?thesis by (simp add: field_simps)
qed

lemma round_magnitude_error:
  assumes "0 \<le> x" and "x < 8"
  shows "\<bar>round_magnitude x - x\<bar> \<le> 1 / 2 ^ 51"
proof -
  from assms have small: "x < 2 ^ 53" by simp
  obtain q u where su: "scale_up x 1 = (q, u)" by (cases "scale_up x 1")
  have "\<exists>i::nat. (1::real) = 1 / 2 ^ i" by (rule exI [of _ 0]) simp
  from scale_up_invariants [OF su assms(1) this]
  obtain j :: nat where prod: "q * u = x" and q0: "0 \<le> q" and u: "u = 1 / 2 ^ j" by auto
  have upos: "0 < u" by (simp add: u)
  have val: "round_magnitude x = of_int (round_half_even q) * u"
    by (simp add: round_magnitude_def scale_down_small [OF small] su)
  have ulp: "u \<le> 1 / 2 ^ 50"
  proof (cases "q < 2 ^ 52")
    case True
    with scale_up_post [OF su] have "u \<le> min_ulp" by simp
    also have "min_ulp \<le> 1 / 2 ^ 50"
    proof -
      have "(2::real) ^ 50 \<le> 2 ^ 1074" by (rule power_increasing) simp_all
      then show ?thesis by (simp add: min_ulp_def field_simps)
    qed
    finally show ?thesis .
  next
    case False
    then have "2 ^ 52 * u \<le> q * u" using upos by simp
    with prod assms(2) have "2 ^ 52 * u < 8" by simp
    then have "u < 1 / 2 ^ 49" by (simp add: field_simps)
    then have "(1::real) / 2 ^ j < 1 / 2 ^ 49" by (simp add: u)
    from half_power_le [OF this] show ?thesis by (simp add: u)
  qed
  have "of_int (round_half_even q) * u - q * u = (of_int (round_half_even q) - q) * u"
    by (simp add: algebra_simps)
  then have "round_magnitude x - x = (of_int (round_half_even q) - q) * u"
    by (simp only: val prod)
  then have "\<bar>round_magnitude x - x\<bar> = \<bar>of_int (round_half_even q) - q\<bar> * u"
    using upos by (simp add: abs_mult)
  also have "\<dots> \<le> 1 / 2 * u"
    using round_half_even_error [of q] upos by (simp only: mult_le_cancel_right_pos)
  also have "\<dots> \<le> 1 / 2 * (1 / 2 ^ 50)" using ulp by simp
  also have "\<dots> = 1 / 2 ^ 51" by simp
  finally show ?thesis .
qed

lemma round_double_error:
  assumes "0 \<le> x" and "x \<le> real k" and "k \<le> 7"
  shows "\<exists>y. round_double x = Finite y \<and> 0 \<le> y \<and> y \<le> real k \<and> \<bar>y - x\<bar> \<le> 1 / 2 ^ 51"
proof -
  have k53: "real k < 2 ^ 53" using assms(3) by simp
  from round_double_bounds [OF assms(1,2) k53]
  obtain y where y: "round_double x = Finite y" "0 \<le> y" "y \<le> real k" by blast
  have "x < 8" using assms(2,3) by simp
  from round_magnitude_error [OF assms(1) this]
  have e: "\<bar>round_magnitude x - x\<bar> \<le> 1 / 2 ^ 51" .
  have "y = round_magnitude x"
    using y(1) assms(1) by (simp add: round_double_def Let_def split: if_splits)
  with e y show ?thesis by simp
qed

lemma foldl_js_add_error:
  assumes "list_all in_unit_interval cs" and "0 \<le> s" and "s \<le> real n"
    and "n + length cs \<le> 7"
  shows "\<exists>t. foldl (\<lambda>s c. js_add s c) (Finite s) cs = Finite t \<and> 0 \<le> t
           \<and> t \<le> real (n + length cs)
           \<and> \<bar>t - (s + sum_list (map finite_value cs))\<bar> \<le> real (length cs) / 2 ^ 51"
  using assms
proof (induction cs arbitrary: s n)
  case Nil
  then show ?case by simp
next
  case (Cons c cs)
  from Cons.prems(1) obtain a where c: "c = Finite a" and a: "0 \<le> a" "a \<le> 1"
    by (cases c) auto
  have range: "0 \<le> s + a" "s + a \<le> real (Suc n)" using a Cons.prems by simp_all
  have small: "Suc n \<le> 7" using Cons.prems(4) by simp
  from round_double_error [OF range small]
  obtain y where y: "round_double (s + a) = Finite y" "0 \<le> y" "y \<le> real (Suc n)"
    "\<bar>y - (s + a)\<bar> \<le> 1 / 2 ^ 51" by blast
  have rest: "list_all in_unit_interval cs" using Cons.prems(1) by simp
  have len: "Suc n + length cs \<le> 7" using Cons.prems(4) by simp
  from Cons.IH [OF rest y(2) y(3) len]
  obtain t where t: "foldl (\<lambda>s c. js_add s c) (Finite y) cs = Finite t" "0 \<le> t"
    "t \<le> real (Suc n + length cs)"
    "\<bar>t - (y + sum_list (map finite_value cs))\<bar> \<le> real (length cs) / 2 ^ 51" by blast
  have "\<bar>t - (s + sum_list (map finite_value (c # cs)))\<bar>
          \<le> \<bar>t - (y + sum_list (map finite_value cs))\<bar> + \<bar>y - (s + a)\<bar>"
    by (simp add: c)
  also have "\<dots> \<le> real (length cs) / 2 ^ 51 + 1 / 2 ^ 51" using t(4) y(4) by linarith
  also have "\<dots> = real (length (c # cs)) / 2 ^ 51" by (simp add: field_simps)
  finally have err: "\<bar>t - (s + sum_list (map finite_value (c # cs)))\<bar>
                       \<le> real (length (c # cs)) / 2 ^ 51" .
  from t(1,2,3) err show ?case by (simp add: c y(1))
qed

lemma avg_error:
  assumes "list_all in_unit_interval confs" and "confs \<noteq> []" and "length confs \<le> 7"
  shows "\<bar>finite_value (avg confs) - exact_mean confs\<bar> \<le> 1 / 2 ^ 50"
proof -
  define n where "n = length confs"
  have npos: "0 < real n" using assms(2) by (simp add: n_def)
  have "0 + length confs \<le> 7" using assms(3) by simp
  from foldl_js_add_error [OF assms(1) _ _ this, of 0]
  obtain t where t: "foldl (\<lambda>s c. js_add s c) (Finite 0) confs = Finite t"
    "0 \<le> t" "t \<le> real n"
    "\<bar>t - sum_list (map finite_value confs)\<bar> \<le> real n / 2 ^ 51"
    by (auto simp: n_def)
  have q: "0 \<le> t / real n" "t / real n \<le> real 1"
    using t npos by (simp_all add: divide_le_eq)
  from round_double_error [OF q] obtain y
    where y: "round_double (t / real n) = Finite y" "\<bar>y - t / real n\<bar> \<le> 1 / 2 ^ 51"
    by auto
  have a: "avg confs = Finite y" using assms(2) y(1) by (simp add: avg_def t(1) n_def)
  have "t / real n - exact_mean confs = (t - sum_list (map finite_value confs)) / real n"
    by (simp add: exact_mean_def n_def diff_divide_distrib)
  then have "\<bar>t / real n - exact_mean confs\<bar>
               = \<bar>t - sum_list (map finite_value confs)\<bar> / real n"
    using npos by simp
  also have "\<dots> \<le> (real n / 2 ^ 51) / real n"
    using t(4) npos by (simp only: divide_le_cancel) simp
  also have "\<dots> = 1 / 2 ^ 51" using npos by simp
  finally have d: "\<bar>t / real n - exact_mean confs\<bar> \<le> 1 / 2 ^ 51" .
  have "\<bar>y - exact_mean confs\<bar> \<le> \<bar>y - t / real n\<bar> + \<bar>t / real n - exact_mean confs\<bar>"
    by simp
  also have "\<dots> \<le> 1 / 2 ^ 51 + 1 / 2 ^ 51" using y(2) d by linarith
  also have "\<dots> = 1 / 2 ^ 50" by simp
  finally show ?thesis by (simp add: a)
qed

lemma scale_up_steps:
  "2 ^ 52 \<le> q * 2 ^ j \<Longrightarrow> q * 2 ^ j < 2 ^ 53 \<Longrightarrow> i + j \<le> 1074 \<Longrightarrow>
     scale_up q (1 / 2 ^ i) = (q * 2 ^ j, 1 / 2 ^ (i + j))"
proof (induction j arbitrary: q i)
  case 0
  then show ?case by (simp add: scale_up.simps [of q])
next
  case (Suc j)
  have pos: "0 < q"
  proof (rule ccontr)
    assume "\<not> 0 < q"
    then have "q * 2 ^ Suc j \<le> 0" by (simp add: mult_le_0_iff)
    with Suc.prems(1) show False by simp
  qed
  have "(2::real) ^ 1 \<le> 2 ^ Suc j" by (rule power_increasing) simp_all
  then have "q * 2 \<le> q * 2 ^ Suc j" using pos by simp
  with Suc.prems(2) have q52: "q < 2 ^ 52" by simp
  have "i < 1074" using Suc.prems(3) by simp
  then have "(2::real) ^ i < 2 ^ 1074" by (rule power_strict_increasing) simp
  then have ulp: "min_ulp < 1 / 2 ^ i" by (simp add: min_ulp_def field_simps)
  have a: "2 ^ 52 \<le> q * 2 * 2 ^ j" using Suc.prems(1) by (simp add: mult.assoc)
  have b: "q * 2 * 2 ^ j < 2 ^ 53" using Suc.prems(2) by (simp add: mult.assoc)
  have c: "Suc i + j \<le> 1074" using Suc.prems(3) by simp
  have "scale_up q (1 / 2 ^ i) = scale_up (q * 2) (1 / 2 ^ i / 2)"
    using q52 ulp by (subst scale_up.simps) simp
  also have "1 / 2 ^ i / 2 = (1::real) / 2 ^ Suc i" by simp
  also have "scale_up (q * 2) (1 / 2 ^ Suc i) = (q * 2 * 2 ^ j, 1 / 2 ^ (Suc i + j))"
    by (rule Suc.IH [OF a b c])
  finally show ?case by (simp add: mult.assoc)
qed

lemma round_double_normal:
  assumes "2 ^ 52 \<le> x * 2 ^ j" and "x * 2 ^ j < 2 ^ 53" and "j \<le> 1074"
  shows "round_double x = Finite (of_int (round_half_even (x * 2 ^ j)) / 2 ^ j)"
proof -
  have pos: "0 < x"
  proof (rule ccontr)
    assume "\<not> 0 < x"
    then have "x * 2 ^ j \<le> 0" by (simp add: mult_le_0_iff)
    with assms(1) show False by simp
  qed
  have "(1::real) \<le> 2 ^ j" by simp
  then have "x \<le> x * 2 ^ j" using pos by simp
  with assms(2) have small: "x < 2 ^ 53" by simp
  have su: "scale_up x 1 = (x * 2 ^ j, 1 / 2 ^ j)"
    using scale_up_steps [OF assms(1,2), of 0] assms(3) by simp
  have val: "round_magnitude x = of_int (round_half_even (x * 2 ^ j)) / 2 ^ j"
    by (simp add: round_magnitude_def scale_down_small [OF small] su)
  have "x * 2 ^ j \<le> of_int (2 ^ 53)" using assms(2) by simp
  then have "round_half_even (x * 2 ^ j) \<le> 2 ^ 53" by (rule round_half_even_le)
  then have "(of_int (round_half_even (x * 2 ^ j)) :: real) \<le> of_int (2 ^ 53)"
    by (simp only: of_int_le_iff)
  then have "(of_int (round_half_even (x * 2 ^ j)) :: real) \<le> 2 ^ 53" by simp
  moreover have "(of_int (round_half_even (x * 2 ^ j)) :: real) / 2 ^ j
                   \<le> of_int (round_half_even (x * 2 ^ j))"
  proof -
    have "(0::real) \<le> of_int (round_half_even (x * 2 ^ j))"
    proof -
      have "of_int 0 \<le> x * 2 ^ j" using assms(1) by simp
      then have "0 \<le> round_half_even (x * 2 ^ j)" by (rule round_half_even_ge)
      then show ?thesis by simp
    qed
    then show ?thesis by (simp add: divide_le_eq mult_le_cancel_left1)
  qed
  moreover have "(2::real) ^ 53 < 2 ^ 1024" by (rule power_strict_increasing) simp_all
  ultimately have "round_magnitude x < 2 ^ 1024" by (simp add: val)
  with pos show ?thesis by (simp add: round_double_def Let_def val)
qed

lemma round_double_zero: "round_double 0 = Finite 0"
proof -
  from round_double_bounds [of 0 0] show ?thesis by auto
qed

text \<open>The doubles denoted by the literals used below.\<close>

lemma number_literal_090: "number_literal 0.9 = Finite (8106479329266893 / 9007199254740992)"
  by (simp add: number_literal_def round_double_normal [where j = 53] round_half_even_def Let_def)

lemma number_literal_070: "number_literal 0.7 = Finite (3152519739159347 / 4503599627370496)"
  by (simp add: number_literal_def round_double_normal [where j = 53] round_half_even_def Let_def)

lemma number_literal_095: "number_literal 0.95 = Finite (4278419646001971 / 4503599627370496)"
  by (simp add: number_literal_def round_double_normal [where j = 53] round_half_even_def Let_def)

lemma number_literal_080: "number_literal 0.8 = Finite (3602879701896397 / 4503599627370496)"
  by (simp add: number_literal_def round_double_normal [where j = 53] round_half_even_def Let_def)

lemma number_literal_085: "number_literal 0.85 = Finite (7656119366529843 / 9007199254740992)"
  by (simp add: number_literal_def round_double_normal [where j = 53] round_half_even_def Let_def)

lemma number_literal_090_fraction: "number_literal (9 / 10) = Finite (8106479329266893 / 9007199254740992)"
  using number_literal_090 by simp

lemma number_literal_070_fraction: "number_literal (7 / 10) = Finite (3152519739159347 / 4503599627370496)"
  using number_literal_070 by simp

lemma number_literal_095_fraction: "number_literal (19 / 20) = Finite (4278419646001971 / 4503599627370496)"
  using number_literal_095 by simp

lemma number_literal_080_fraction: "number_literal (4 / 5) = Finite (3602879701896397 / 4503599627370496)"
  using number_literal_080 by simp

lemma number_literal_085_fraction: "number_literal (17 / 20) = Finite (7656119366529843 / 9007199254740992)"
  using number_literal_085 by simp

lemmas number_literals =
  number_literal_090 number_literal_070 number_literal_095 number_literal_080 number_literal_085
  number_literal_090_fraction number_literal_070_fraction number_literal_095_fraction
  number_literal_080_fraction number_literal_085_fraction

subsection \<open>Confidence aggregation\<close>

lemma line_item_confs_example:
  "line_item_confs example_line_item =
     [Finite 1, number_literal 0.9, Finite 1, number_literal 0.8, number_literal 0.8,
      Finite 0, number_literal 0.7]"
  by (simp add: line_item_confs_def example_line_item_def)

lemma box_confs_example:
  "box_confs example_box =
     [Finite 1, number_literal 0.95, number_literal 0.95, number_literal 0.95,
      number_literal 0.8]"
  by (simp add: box_confs_def example_box_def)

lemma box_confs_dyadic:
  "box_confs dyadic_box = [Finite 1, Finite 1, Finite 1, Finite 1, Finite (1 / 2)]"
  by (simp add: box_confs_def dyadic_box_def)

lemma box_confs_boundary:
  "box_confs boundary_box =
     [number_literal 0.85, number_literal 0.95, number_literal 0.9, number_literal 0.95,
      number_literal 0.85]"
  by (simp add: box_confs_def boundary_box_def)

lemma line_item_avg_example:
  "line_item_avg example_line_item = Finite (836382787940235 / 1125899906842624)"
proof -
  have s0: "js_add (Finite 0) (Finite 1) = Finite 1"
    by (simp add: round_double_normal [where j = 52] round_half_even_def Let_def)
  have s1: "js_add (Finite 1) (Finite (8106479329266893 / 9007199254740992)) = Finite (4278419646001971 / 2251799813685248)"
    by (simp add: round_double_normal [where j = 52] round_half_even_def Let_def)
  have s2: "js_add (Finite (4278419646001971 / 2251799813685248)) (Finite 1) = Finite (6530219459687219 / 2251799813685248)"
    by (simp add: round_double_normal [where j = 51] round_half_even_def Let_def)
  have s3: "js_add (Finite (6530219459687219 / 2251799813685248)) (Finite (3602879701896397 / 4503599627370496)) = Finite (4165829655317709 / 1125899906842624)"
    by (simp add: round_double_normal [where j = 51] round_half_even_def Let_def)
  have s4: "js_add (Finite (4165829655317709 / 1125899906842624)) (Finite (3602879701896397 / 4503599627370496)) = Finite (9 / 2)"
    by (simp add: round_double_normal [where j = 50] round_half_even_def Let_def)
  have s5: "js_add (Finite (9 / 2)) (Finite 0) = Finite (9 / 2)"
    by (simp add: round_double_normal [where j = 50] round_half_even_def Let_def)
  have s6: "js_add (Finite (9 / 2)) (Finite (3152519739159347 / 4503599627370496)) = Finite (5854679515581645 / 1125899906842624)"
    by (simp add: round_double_normal [where j = 50] round_half_even_def Let_def)
  have d: "js_div_length (Finite (5854679515581645 / 1125899906842624)) 7 = Finite (836382787940235 / 1125899906842624)"
    by (simp add: round_double_normal [where j = 53] round_half_even_def Let_def)
  have f: "foldl (\<lambda>s c. js_add s c) (Finite 0) [Finite 1, Finite (8106479329266893 / 9007199254740992), Finite 1, Finite (3602879701896397 / 4503599627370496), Finite (3602879701896397 / 4503599627370496), Finite 0, Finite (3152519739159347 / 4503599627370496)] = Finite (5854679515581645 / 1125899906842624)"
    by (simp only: foldl.simps s0 s1 s2 s3 s4 s5 s6)
  have l: "length [Finite 1, Finite (8106479329266893 / 9007199254740992), Finite 1, Finite (3602879701896397 / 4503599627370496), Finite (3602879701896397 / 4503599627370496), Finite 0, Finite (3152519739159347 / 4503599627370496)] = 7" by simp
  have a: "avg [Finite 1, Finite (8106479329266893 / 9007199254740992), Finite 1, Finite (3602879701896397 / 4503599627370496), Finite (3602879701896397 / 4503599627370496), Finite 0, Finite (3152519739159347 / 4503599627370496)] = Finite (836382787940235 / 1125899906842624)"
    by (simp only: avg_def f l d)
  show ?thesis
    by (simp only: line_item_avg_def line_item_confs_example number_literal_090 number_literal_080 number_literal_070 a)
qed

lemma box_avg_example:
  "box_avg example_box = Finite (4188347653454561 / 4503599627370496)"
proof -
  have s0: "js_add (Finite 0) (Finite 1) = Finite 1"
    by (simp add: round_double_normal [where j = 52] round_half_even_def Let_def)
  have s1: "js_add (Finite 1) (Finite (4278419646001971 / 4503599627370496)) = Finite (8782019273372467 / 4503599627370496)"
    by (simp add: round_double_normal [where j = 52] round_half_even_def Let_def)
  have s2: "js_add (Finite (8782019273372467 / 4503599627370496)) (Finite (4278419646001971 / 4503599627370496)) = Finite (6530219459687219 / 2251799813685248)"
    by (simp add: round_double_normal [where j = 51] round_half_even_def Let_def)
  have s3: "js_add (Finite (6530219459687219 / 2251799813685248)) (Finite (4278419646001971 / 4503599627370496)) = Finite (2167357320672051 / 562949953421312)"
    by (simp add: round_double_normal [where j = 51] round_half_even_def Let_def)
  have s4: "js_add (Finite (2167357320672051 / 562949953421312)) (Finite (3602879701896397 / 4503599627370496)) = Finite (5235434566818201 / 1125899906842624)"
    by (simp add: round_double_normal [where j = 50] round_half_even_def Let_def)
  have d: "js_div_length (Finite (5235434566818201 / 1125899906842624)) 5 = Finite (4188347653454561 / 4503599627370496)"
    by (simp add: round_double_normal [where j = 53] round_half_even_def Let_def)
  have f: "foldl (\<lambda>s c. js_add s c) (Finite 0) [Finite 1, Finite (4278419646001971 / 4503599627370496), Finite (4278419646001971 / 4503599627370496), Finite (4278419646001971 / 4503599627370496), Finite (3602879701896397 / 4503599627370496)] = Finite (5235434566818201 / 1125899906842624)"
    by (simp only: foldl.simps s0 s1 s2 s3 s4)
  have l: "length [Finite 1, Finite (4278419646001971 / 4503599627370496), Finite (4278419646001971 / 4503599627370496), Finite (4278419646001971 / 4503599627370496), Finite (3602879701896397 / 4503599627370496)] = 5" by simp
  have a: "avg [Finite 1, Finite (4278419646001971 / 4503599627370496), Finite (4278419646001971 / 4503599627370496), Finite (4278419646001971 / 4503599627370496), Finite (3602879701896397 / 4503599627370496)] = Finite (4188347653454561 / 4503599627370496)"
    by (simp only: avg_def f l d)
  show ?thesis
    by (simp only: box_avg_def box_confs_example number_literal_095 number_literal_080 a)
qed

lemma box_avg_dyadic:
  "box_avg dyadic_box = Finite (8106479329266893 / 9007199254740992)"
proof -
  have s0: "js_add (Finite 0) (Finite 1) = Finite 1"
    by (simp add: round_double_normal [where j = 52] round_half_even_def Let_def)
  have s1: "js_add (Finite 1) (Finite 1) = Finite 2"
    by (simp add: round_double_normal [where j = 51] round_half_even_def Let_def)
  have s2: "js_add (Finite 2) (Finite 1) = Finite 3"
    by (simp add: round_double_normal [where j = 51] round_half_even_def Let_def)
  have s3: "js_add (Finite 3) (Finite 1) = Finite 4"
    by (simp add: round_double_normal [where j = 50] round_half_even_def Let_def)
  have s4: "js_add (Finite 4) (Finite (1 / 2)) = Finite (9 / 2)"
    by (simp add: round_double_normal [where j = 50] round_half_even_def Let_def)
  have d: "js_div_length (Finite (9 / 2)) 5 = Finite (8106479329266893 / 9007199254740992)"
    by (simp add: round_double_normal [where j = 53] round_half_even_def Let_def)
  have f: "foldl (\<lambda>s c. js_add s c) (Finite 0) [Finite 1, Finite 1, Finite 1, Finite 1, Finite (1 / 2)] = Finite (9 / 2)"
    by (simp only: foldl.simps s0 s1 s2 s3 s4)
  have l: "length [Finite 1, Finite 1, Finite 1, Finite 1, Finite (1 / 2)] = 5" by simp
  have a: "avg [Finite 1, Finite 1, Finite 1, Finite 1, Finite (1 / 2)] = Finite (8106479329266893 / 9007199254740992)"
    by (simp only: avg_def f l d)
  show ?thesis
    by (simp only: box_avg_def box_confs_dyadic  a)
qed

lemma box_avg_boundary:
  "box_avg boundary_box = Finite (8106479329266891 / 9007199254740992)"
proof -
  have s0: "js_add (Finite 0) (Finite (7656119366529843 / 9007199254740992)) = Finite (7656119366529843 / 9007199254740992)"
    by (simp add: round_double_normal [where j = 53] round_half_even_def Let_def)
  have s1: "js_add (Finite (7656119366529843 / 9007199254740992)) (Finite (4278419646001971 / 4503599627370496)) = Finite (2026619832316723 / 1125899906842624)"
    by (simp add: round_double_normal [where j = 52] round_half_even_def Let_def)
  have s2: "js_add (Finite (2026619832316723 / 1125899906842624)) (Finite (8106479329266893 / 9007199254740992)) = Finite (6079859496950169 / 2251799813685248)"
    by (simp add: round_double_normal [where j = 51] round_half_even_def Let_def)
  have s3: "js_add (Finite (6079859496950169 / 2251799813685248)) (Finite (4278419646001971 / 4503599627370496)) = Finite (4109534659975577 / 1125899906842624)"
    by (simp add: round_double_normal [where j = 51] round_half_even_def Let_def)
  have s4: "js_add (Finite (4109534659975577 / 1125899906842624)) (Finite (7656119366529843 / 9007199254740992)) = Finite (5066549580791807 / 1125899906842624)"
    by (simp add: round_double_normal [where j = 50] round_half_even_def Let_def)
  have d: "js_div_length (Finite (5066549580791807 / 1125899906842624)) 5 = Finite (8106479329266891 / 9007199254740992)"
    by (simp add: round_double_normal [where j = 53] round_half_even_def Let_def)
  have f: "foldl (\<lambda>s c. js_add s c) (Finite 0) [Finite (7656119366529843 / 9007199254740992), Finite (4278419646001971 / 4503599627370496), Finite (8106479329266893 / 9007199254740992), Finite (4278419646001971 / 4503599627370496), Finite (7656119366529843 / 9007199254740992)] = Finite (5066549580791807 / 1125899906842624)"
    by (simp only: foldl.simps s0 s1 s2 s3 s4)
  have l: "length [Finite (7656119366529843 / 9007199254740992), Finite (4278419646001971 / 4503599627370496), Finite (8106479329266893 / 9007199254740992), Finite (4278419646001971 / 4503599627370496), Finite (7656119366529843 / 9007199254740992)] = 5" by simp
  have a: "avg [Finite (7656119366529843 / 9007199254740992), Finite (4278419646001971 / 4503599627370496), Finite (8106479329266893 / 9007199254740992), Finite (4278419646001971 / 4503599627370496), Finite (7656119366529843 / 9007199254740992)] = Finite (8106479329266891 / 9007199254740992)"
    by (simp only: avg_def f l d)
  show ?thesis
    by (simp only: box_avg_def box_confs_boundary number_literal_085 number_literal_095 number_literal_090 a)
qed

lemma exact_mean_boundary:
  "exact_mean (box_confs boundary_box) = 40532396646334463 / 45035996273704960"
  by (simp add: box_confs_boundary exact_mean_def number_literals)

lemma getConfidenceColor_tiers:
  "(getConfidenceColor score = Success) = js_ge score (number_literal 0.90)"
  "(getConfidenceColor score = Warning)
     = (js_ge score (number_literal 0.70) \<and> js_lt score (number_literal 0.90))"
  "(getConfidenceColor score = Error) = (\<not> js_ge score (number_literal 0.70))"
  by (cases score; simp add: getConfidenceColor_def number_literals)+

lemma avg_7:
  "avg [a, b, c, d, e, f, g] =
     js_div_length
       (js_add (js_add (js_add (js_add (js_add (js_add (js_add (Finite 0) a) b) c) d) e) f) g) 7"
  by (simp add: avg_def eval_nat_numeral)

lemma avg_5:
  "avg [a, b, c, d, e] =
     js_div_length (js_add (js_add (js_add (js_add (js_add (Finite 0) a) b) c) d) e) 5"
  by (simp add: avg_def eval_nat_numeral)

text \<open>
  C5, as the code has it. The aggregate confidence of a line item is the result, in
  double-precision arithmetic, of adding the confidences of its seven fields description,
  origin HS code, quantity, unit price, total price, unit weight and tax percent from
  left to right, starting from 0, and dividing by 7; that of a box is the same for the
  five fields box number, length, width, height and gross weight, divided by 5. Every
  addition and the division round to the nearest double, so the aggregate is the
  unweighted mean of the field confidences only up to rounding. When every one of these
  confidences lies in [0,1], the aggregate lies in [0,1] and differs from the exact mean
  by at most \<open>1 / 2 ^ 50\<close>. The tier is high (success) iff the score is at least 0.90,
  medium (warning) iff it is at least 0.70 and below 0.90, low (error) otherwise, where
  the comparisons are those of doubles and 0.90 and 0.70 are the doubles these literals
  denote.
\<close>

theorem confidence_aggregation:
  "line_item_avg item =
     js_div_length
       (js_add (js_add (js_add (js_add (js_add (js_add (js_add (Finite 0)
          (confidence (description item))) (confidence (hs_code_origin item)))
          (confidence (quantity item))) (confidence (unit_price_usd item)))
          (confidence (total_price_usd item))) (confidence (unit_weight_kg item)))
          (confidence (igst_percent item))) 7
   \<and> box_avg box =
     js_div_length
       (js_add (js_add (js_add (js_add (js_add (Finite 0)
          (confidence (box_number box))) (confidence (length_cm box)))
          (confidence (width_cm box))) (confidence (height_cm box)))
          (confidence (gross_weight_kg box))) 5
   \<and> exact_mean (line_item_confs item) =
     (finite_value (confidence (description item))
        + finite_value (confidence (hs_code_origin item))
        + finite_value (confidence (quantity item))
        + finite_value (confidence (unit_price_usd item))
        + finite_value (confidence (total_price_usd item))
        + finite_value (confidence (unit_weight_kg item))
        + finite_value (confidence (igst_percent item))) / 7
   \<and> exact_mean (box_confs box) =
     (finite_value (confidence (box_number box)) + finite_value (confidence (length_cm box))
        + finite_value (confidence (width_cm box)) + finite_value (confidence (height_cm box))
        + finite_value (confidence (gross_weight_kg box))) / 5
   \<and> (list_all in_unit_interval (line_item_confs item) \<longrightarrow>
        in_unit_interval (line_item_avg item)
        \<and> \<bar>finite_value (line_item_avg item) - exact_mean (line_item_confs item)\<bar>
            \<le> 1 / 2 ^ 50)
   \<and> (list_all in_unit_interval (box_confs box) \<longrightarrow>
        in_unit_interval (box_avg box)
        \<and> \<bar>finite_value (box_avg box) - exact_mean (box_confs box)\<bar> \<le> 1 / 2 ^ 50)
   \<and> (getConfidenceColor score = Success) = js_ge score (number_literal 0.90)
   \<and> (getConfidenceColor score = Warning)
       = (js_ge score (number_literal 0.70) \<and> js_lt score (number_literal 0.90))
   \<and> (getConfidenceColor score = Error) = (\<not> js_ge score (number_literal 0.70))"
proof -
  have item_value: "line_item_avg item =
     js_div_length
       (js_add (js_add (js_add (js_add (js_add (js_add (js_add (Finite 0)
          (confidence (description item))) (confidence (hs_code_origin item)))
          (confidence (quantity item))) (confidence (unit_price_usd item)))
          (confidence (total_price_usd item))) (confidence (unit_weight_kg item)))
          (confidence (igst_percent item))) 7"
    by (simp only: line_item_avg_def line_item_confs_def avg_7)
  have box_value: "box_avg box =
     js_div_length
       (js_add (js_add (js_add (js_add (js_add (Finite 0)
          (confidence (box_number box))) (confidence (length_cm box)))
          (confidence (width_cm box))) (confidence (height_cm box)))
          (confidence (gross_weight_kg box))) 5"
    by (simp only: box_avg_def box_confs_def avg_5)
  have item_mean: "exact_mean (line_item_confs item) =
     (finite_value (confidence (description item))
        + finite_value (confidence (hs_code_origin item))
        + finite_value (confidence (quantity item))
        + finite_value (confidence (unit_price_usd item))
        + finite_value (confidence (total_price_usd item))
        + finite_value (confidence (unit_weight_kg item))
        + finite_value (confidence (igst_percent item))) / 7"
    by (simp add: exact_mean_def line_item_confs_def)
  have box_mean: "exact_mean (box_confs box) =
     (finite_value (confidence (box_number box)) + finite_value (confidence (length_cm box))
        + finite_value (confidence (width_cm box)) + finite_value (confidence (height_cm box))
        + finite_value (confidence (gross_weight_kg box))) / 5"
    by (simp add: exact_mean_def box_confs_def)
  have item_len: "line_item_confs item \<noteq> []" "length (line_item_confs item) \<le> 7"
    "real (length (line_item_confs item)) < 2 ^ 53"
    by (simp_all add: line_item_confs_def)
  have box_len: "box_confs box \<noteq> []" "length (box_confs box) \<le> 7"
    "real (length (box_confs box)) < 2 ^ 53"
    by (simp_all add: box_confs_def)
  have item_range: "list_all in_unit_interval (line_item_confs item) \<longrightarrow>
        in_unit_interval (line_item_avg item)
        \<and> \<bar>finite_value (line_item_avg item) - exact_mean (line_item_confs item)\<bar>
            \<le> 1 / 2 ^ 50"
  proof
    assume a: "list_all in_unit_interval (line_item_confs item)"
    from avg_in_unit_interval [OF a item_len(1) item_len(3)]
         avg_error [OF a item_len(1) item_len(2)]
    show "in_unit_interval (line_item_avg item)
        \<and> \<bar>finite_value (line_item_avg item) - exact_mean (line_item_confs item)\<bar>
            \<le> 1 / 2 ^ 50"
      by (simp only: line_item_avg_def)
  qed
  have box_range: "list_all in_unit_interval (box_confs box) \<longrightarrow>
        in_unit_interval (box_avg box)
        \<and> \<bar>finite_value (box_avg box) - exact_mean (box_confs box)\<bar> \<le> 1 / 2 ^ 50"
  proof
    assume a: "list_all in_unit_interval (box_confs box)"
    from avg_in_unit_interval [OF a box_len(1) box_len(3)]
         avg_error [OF a box_len(1) box_len(2)]
    show "in_unit_interval (box_avg box)
        \<and> \<bar>finite_value (box_avg box) - exact_mean (box_confs box)\<bar> \<le> 1 / 2 ^ 50"
      by (simp only: box_avg_def)
  qed
  from item_value box_value item_mean box_mean item_range box_range
       getConfidenceColor_tiers [of score]
  show ?thesis by blast
qed

theorem confidence_aggregation_witness:
  "list_all in_unit_interval (line_item_confs example_line_item)
   \<and> line_item_avg example_line_item = Finite (836382787940235 / 1125899906842624)
   \<and> in_unit_interval (line_item_avg example_line_item)
   \<and> getConfidenceColor (line_item_avg example_line_item) = Warning
   \<and> list_all in_unit_interval (box_confs example_box)
   \<and> box_avg example_box = Finite (4188347653454561 / 4503599627370496)
   \<and> in_unit_interval (box_avg example_box)
   \<and> getConfidenceColor (box_avg example_box) = Success
   \<and> getConfidenceColor (number_literal 0.9) = Success
   \<and> getConfidenceColor (number_literal 0.7) = Warning
   \<and> getConfidenceColor (Finite (1 / 2)) = Error
   \<and> getConfidenceColor NaN = Error"
proof -
  have items: "list_all in_unit_interval (line_item_confs example_line_item)"
    by (simp add: line_item_confs_example number_literals)
  have box: "list_all in_unit_interval (box_confs example_box)"
    by (simp add: box_confs_example number_literals)
  note th1 = confidence_aggregation [of example_line_item example_box
               "line_item_avg example_line_item"]
  note th2 = confidence_aggregation [of example_line_item example_box "box_avg example_box"]
  note th3 = confidence_aggregation [of example_line_item example_box "number_literal 0.9"]
  note th4 = confidence_aggregation [of example_line_item example_box "number_literal 0.7"]
  note th5 = confidence_aggregation [of example_line_item example_box "Finite (1 / 2)"]
  note th6 = confidence_aggregation [of example_line_item example_box NaN]
  have r1: "in_unit_interval (line_item_avg example_line_item)" using th1 items by blast
  have r2: "in_unit_interval (box_avg example_box)" using th1 box by blast
  from th1 have t1: "(getConfidenceColor (line_item_avg example_line_item) = Warning) = (js_ge (line_item_avg example_line_item) (number_literal 0.70) \<and> js_lt (line_item_avg example_line_item) (number_literal 0.90))"
    by blast
  have c1: "getConfidenceColor (line_item_avg example_line_item) = Warning"
    unfolding t1 by (simp add: line_item_avg_example number_literals)
  from th2 have t2: "(getConfidenceColor (box_avg example_box) = Success) = js_ge (box_avg example_box) (number_literal 0.90)"
    by blast
  have c2: "getConfidenceColor (box_avg example_box) = Success"
    unfolding t2 by (simp add: box_avg_example number_literals)
  from th3 have t3: "(getConfidenceColor (number_literal 0.9) = Success) = js_ge (number_literal 0.9) (number_literal 0.90)"
    by blast
  have c3: "getConfidenceColor (number_literal 0.9) = Success"
    unfolding t3 by (simp add: number_literals)
  from th4 have t4: "(getConfidenceColor (number_literal 0.7) = Warning) = (js_ge (number_literal 0.7) (number_literal 0.70) \<and> js_lt (number_literal 0.7) (number_literal 0.90))"
    by blast
  have c4: "getConfidenceColor (number_literal 0.7) = Warning"
    unfolding t4 by (simp add: number_literals)
  from th5 have t5: "(getConfidenceColor (Finite (1 / 2)) = Error) = (\<not> js_ge (Finite (1 / 2)) (number_literal 0.70))"
    by blast
  have c5: "getConfidenceColor (Finite (1 / 2)) = Error"
    unfolding t5 by (simp add: number_literals)
  from th6 have t6: "(getConfidenceColor (NaN) = Error) = (\<not> js_ge (NaN) (number_literal 0.70))"
    by blast
  have c6: "getConfidenceColor (NaN) = Error"
    unfolding t6 by (simp add: number_literals)
  from items box r1 r2 c1 c2 c3 c4 c5 c6 line_item_avg_example box_avg_example
  show ?thesis by simp
qed

text \<open>
  C5 as stated fails. The five confidences 1, 1, 1, 1 and 0.5 of a box are exact doubles
  with the exact mean 9/10, which is not a double: the aggregate is the double nearest to
  it, not the mean. With the confidences 0.85, 0.95, 0.9, 0.95 and 0.85 the roundings of
  the additions accumulate: the aggregate is 0.8999999999999998, two doubles below the
  one nearest to the exact mean, which is the double 0.9; the row is shown in the medium
  tier, where the mean rounded once would be shown in the high tier.
\<close>

theorem aggregate_not_exact_mean_counterexample:
  "box_confs dyadic_box = [Finite 1, Finite 1, Finite 1, Finite 1, Finite (1 / 2)]
   \<and> exact_mean (box_confs dyadic_box) = 9 / 10
   \<and> box_avg dyadic_box = Finite (8106479329266893 / 9007199254740992)
   \<and> finite_value (box_avg dyadic_box) \<noteq> exact_mean (box_confs dyadic_box)
   \<and> box_avg boundary_box = Finite (8106479329266891 / 9007199254740992)
   \<and> finite_value (box_avg boundary_box) \<noteq> exact_mean (box_confs boundary_box)
   \<and> getConfidenceColor (box_avg boundary_box) = Warning
   \<and> round_double (exact_mean (box_confs boundary_box)) = number_literal 0.9
   \<and> getConfidenceColor (round_double (exact_mean (box_confs boundary_box))) = Success"
proof -
  have m: "exact_mean (box_confs dyadic_box) = 9 / 10"
    by (simp add: box_confs_dyadic exact_mean_def)
  have ne: "finite_value (box_avg dyadic_box) \<noteq> exact_mean (box_confs dyadic_box)"
    by (simp add: m box_avg_dyadic)
  have ne2: "finite_value (box_avg boundary_box) \<noteq> exact_mean (box_confs boundary_box)"
    by (simp add: exact_mean_boundary box_avg_boundary)
  have w: "getConfidenceColor (box_avg boundary_box) = Warning"
    by (simp add: box_avg_boundary getConfidenceColor_def number_literals)
  have r: "round_double (exact_mean (box_confs boundary_box)) = number_literal 0.9"
    by (simp add: exact_mean_boundary number_literals
          round_double_normal [where j = 53] round_half_even_def Let_def)
  have s: "getConfidenceColor (round_double (exact_mean (box_confs boundary_box))) = Success"
    by (simp only: r) (simp add: getConfidenceColor_def number_literals)
  from box_confs_dyadic m box_avg_dyadic ne box_avg_boundary ne2 w r s
  show ?thesis by simp
qed

subsection \<open>Multi-destination detection\<close>

text \<open>
  C6. Multi-destination mode is active iff the list of destinations of the packing list
  has more than one element. With 0 or 1 destinations the single receiver card is
  rendered, the boxes table has no destination column and no row has a destination
  cell, and there is no destinations tile. With 2 or more the table of all destinations
  replaces the receiver card, the boxes table has the destination column, and the row of
  every box shows the destination id of that box in it (the placeholder when the id is
  empty).
\<close>

theorem hasMultiDest_iff:
  "hasMultiDest res = (length (destinations (packing_list res)) > 1)
   \<and> address_card res =
       (if length (destinations (packing_list res)) = 0
           \<or> length (destinations (packing_list res)) = 1
        then ReceiverCard (getReceiverAddress res)
        else DestinationsTable (destinations (packing_list res)))
   \<and> boxes_header res =
       (if length (destinations (packing_list res)) \<ge> 2
        then [''Box #'', ''Dest'', ''L'', ''W'', ''H'', ''Weight'', ''Items'', ''Conf'']
        else [''Box #'', ''L'', ''W'', ''H'', ''Weight'', ''Items'', ''Conf''])
   \<and> box_destination_cell showNumber res box =
       (if length (destinations (packing_list res)) \<ge> 2
        then Some (v showNumber (destination_id box)) else None)
   \<and> boxes_destination_column showNumber res =
       (if length (destinations (packing_list res)) \<ge> 2
        then map (\<lambda>b. Some (v showNumber (destination_id b))) (boxes (packing_list res))
        else map (\<lambda>b. None) (boxes (packing_list res)))
   \<and> stats_labels res =
       (if length (destinations (packing_list res)) \<ge> 2
        then [''Invoice'', ''Amount'', ''Items'', ''Boxes'', ''Weight'', ''Destinations'']
        else [''Invoice'', ''Amount'', ''Items'', ''Boxes'', ''Weight''])"
proof -
  have m: "hasMultiDest res = (length (destinations (packing_list res)) \<ge> 2)"
    by (auto simp: hasMultiDest_def)
  have a: "hasMultiDest res = (length (destinations (packing_list res)) > 1)"
    by (simp add: hasMultiDest_def)
  have b: "address_card res =
       (if length (destinations (packing_list res)) = 0
           \<or> length (destinations (packing_list res)) = 1
        then ReceiverCard (getReceiverAddress res)
        else DestinationsTable (destinations (packing_list res)))"
    by (cases "destinations (packing_list res)") (auto simp: address_card_def hasMultiDest_def)
  have c: "boxes_header res =
       (if length (destinations (packing_list res)) \<ge> 2
        then [''Box #'', ''Dest'', ''L'', ''W'', ''H'', ''Weight'', ''Items'', ''Conf'']
        else [''Box #'', ''L'', ''W'', ''H'', ''Weight'', ''Items'', ''Conf''])"
    by (simp add: boxes_header_def m)
  have d: "box_destination_cell showNumber res box =
       (if length (destinations (packing_list res)) \<ge> 2
        then Some (v showNumber (destination_id box)) else None)"
    by (simp add: box_destination_cell_def m)
  have e: "boxes_destination_column showNumber res =
       (if length (destinations (packing_list res)) \<ge> 2
        then map (\<lambda>b. Some (v showNumber (destination_id b))) (boxes (packing_list res))
        else map (\<lambda>b. None) (boxes (packing_list res)))"
    by (simp add: boxes_destination_column_def box_destination_cell_def m)
  have f: "stats_labels res =
       (if length (destinations (packing_list res)) \<ge> 2
        then [''Invoice'', ''Amount'', ''Items'', ''Boxes'', ''Weight'', ''Destinations'']
        else [''Invoice'', ''Amount'', ''Items'', ''Boxes'', ''Weight''])"
    by (simp add: stats_labels_def m)
  from a b c d e f show ?thesis by blast
qed

lemma two_destination_result_fields:
  "destinations (packing_list two_destination_result)
     = [example_destination ''D1'', example_destination ''D2'']"
  "boxes (packing_list two_destination_result) = [example_box, dyadic_box]"
  by (simp_all add: two_destination_result_def example_result_def example_packing_list_def)

theorem hasMultiDest_iff_witness:
  "\<not> hasMultiDest (example_result ''success'' pune_address [] [] [])
   \<and> \<not> hasMultiDest (example_result ''success'' pune_address [example_destination ''D1''] [] [])
   \<and> address_card (example_result ''success'' pune_address [example_destination ''D1''] [] [])
       = ReceiverCard pune_address
   \<and> box_destination_cell (\<lambda>x. [])
        (example_result ''success'' pune_address [example_destination ''D1''] [] []) example_box
       = None
   \<and> hasMultiDest two_destination_result
   \<and> address_card two_destination_result
       = DestinationsTable [example_destination ''D1'', example_destination ''D2'']
   \<and> box_destination_cell (\<lambda>x. []) two_destination_result example_box = Some ''D1''
   \<and> box_destination_cell (\<lambda>x. []) two_destination_result dyadic_box = Some ''D2''
   \<and> boxes_destination_column (\<lambda>x. []) two_destination_result = [Some ''D1'', Some ''D2'']
   \<and> ''Dest'' \<in> set (boxes_header two_destination_result)"
proof -
  have r: "getReceiverAddress
             (example_result ''success'' pune_address [example_destination ''D1''] [] [])
           = pune_address"
    by (simp add: getReceiverAddress_def hasData_def js_or_def example_result_def
          example_invoice_def pune_address_def empty_address_def empty_cv_def text_cv_def)
  have cell1: "v (\<lambda>x. []) (destination_id example_box) = ''D1''"
    by (simp add: v_def example_box_def)
  have cell2: "v (\<lambda>x. []) (destination_id dyadic_box) = ''D2''"
    by (simp add: v_def dyadic_box_def)
  have d0: "destinations (packing_list (example_result ''success'' pune_address [] [] [])) = []"
    by (simp add: example_result_def example_packing_list_def)
  have d1: "destinations (packing_list
              (example_result ''success'' pune_address [example_destination ''D1''] [] []))
            = [example_destination ''D1'']"
    by (simp add: example_result_def example_packing_list_def)
  note t0 = hasMultiDest_iff [of "example_result ''success'' pune_address [] [] []"]
  note t1 = hasMultiDest_iff
              [of "example_result ''success'' pune_address [example_destination ''D1''] [] []"
                  "\<lambda>x. []" example_box]
  note t2 = hasMultiDest_iff [of two_destination_result "\<lambda>x. []" example_box]
  note t3 = hasMultiDest_iff [of two_destination_result "\<lambda>x. []" dyadic_box]
  from t0 d0 have a0: "\<not> hasMultiDest (example_result ''success'' pune_address [] [] [])"
    by simp
  from t1 d1 r
  have a1: "\<not> hasMultiDest
               (example_result ''success'' pune_address [example_destination ''D1''] [] [])"
    and a2: "address_card
               (example_result ''success'' pune_address [example_destination ''D1''] [] [])
             = ReceiverCard pune_address"
    and a3: "box_destination_cell (\<lambda>x. [])
               (example_result ''success'' pune_address [example_destination ''D1''] [] [])
               example_box = None"
    by simp_all
  from t2 two_destination_result_fields cell1 cell2
  have b1: "hasMultiDest two_destination_result"
    and b2: "address_card two_destination_result
             = DestinationsTable [example_destination ''D1'', example_destination ''D2'']"
    and b3: "box_destination_cell (\<lambda>x. []) two_destination_result example_box = Some ''D1''"
    and b5: "boxes_destination_column (\<lambda>x. []) two_destination_result
             = [Some ''D1'', Some ''D2'']"
    and b6: "''Dest'' \<in> set (boxes_header two_destination_result)"
    by simp_all
  from t3 two_destination_result_fields cell2
  have b4: "box_destination_cell (\<lambda>x. []) two_destination_result dyadic_box = Some ''D2''"
    by simp
  from a0 a1 a2 a3 b1 b2 b3 b4 b5 b6 show ?thesis by simp
qed

subsection \<open>Export options\<close>

lemma options_inv_set_output_currency: "options_inv (set_output_currency c opts)"
  by (simp add: options_inv_def set_output_currency_def)

lemma options_inv_set_sync_hs_codes: "options_inv (set_sync_hs_codes b opts) = options_inv opts"
  by (simp add: options_inv_def set_sync_hs_codes_def)

lemma options_inv_set_exchange_rate:
  "options_inv (set_exchange_rate parseFloat entered opts)
     = (showExchangeRate opts \<or> entered = [])"
  by (auto simp: options_inv_def set_exchange_rate_def showExchangeRate_def)

text \<open>
  C7, as the code has it. In every state of the options, choosing the currency \<^verbatim>\<open>auto\<close>
  sets the exchange rate to \<^verbatim>\<open>null\<close>, and choosing another currency keeps the exchange
  rate as it was. So the invariant that the exchange rate is \<^verbatim>\<open>null\<close> whenever the currency
  is \<^verbatim>\<open>auto\<close> holds in the default options and after every change of the currency, and
  the HS-code switch preserves it. The update of the exchange rate does not test the
  currency: it yields a state with the invariant exactly when the currency is not
  \<^verbatim>\<open>auto\<close> or the entered text is empty.
\<close>

theorem set_output_currency_clears_rate:
  "exchange_rate (set_output_currency auto opts) = None
   \<and> output_currency (set_output_currency c opts) = c
   \<and> sync_hs_codes (set_output_currency c opts) = sync_hs_codes opts
   \<and> (c \<noteq> auto \<longrightarrow> exchange_rate (set_output_currency c opts) = exchange_rate opts)
   \<and> options_inv DEFAULT_OPTIONS
   \<and> options_inv (set_output_currency c opts)
   \<and> options_inv (set_sync_hs_codes b opts) = options_inv opts
   \<and> options_inv (set_exchange_rate parseFloat entered opts)
       = (output_currency opts \<noteq> auto \<or> entered = [])"
proof -
  have a: "exchange_rate (set_output_currency auto opts) = None"
    by (simp add: set_output_currency_def)
  have b: "output_currency (set_output_currency c opts) = c"
    by (simp add: set_output_currency_def)
  have b': "sync_hs_codes (set_output_currency c opts) = sync_hs_codes opts"
    by (simp add: set_output_currency_def)
  have c: "c \<noteq> auto \<longrightarrow> exchange_rate (set_output_currency c opts) = exchange_rate opts"
    by (simp add: set_output_currency_def)
  have d: "options_inv DEFAULT_OPTIONS"
    by (simp add: options_inv_def DEFAULT_OPTIONS_def)
  have e: "options_inv (set_exchange_rate parseFloat entered opts)
       = (output_currency opts \<noteq> auto \<or> entered = [])"
    by (simp add: options_inv_set_exchange_rate showExchangeRate_def)
  from a b b' c d e options_inv_set_output_currency [of c opts]
       options_inv_set_sync_hs_codes [of b opts]
  show ?thesis by blast
qed

theorem set_output_currency_clears_rate_witness:
  "options_inv usd_options
   \<and> exchange_rate usd_options = Some (Finite 0.012)
   \<and> exchange_rate (set_output_currency auto usd_options) = None
   \<and> exchange_rate (set_output_currency INR usd_options) = Some (Finite 0.012)
   \<and> options_inv (set_output_currency auto usd_options)
   \<and> options_inv (set_sync_hs_codes False usd_options)
   \<and> options_inv (set_exchange_rate (\<lambda>s. Finite 83.5) ''83.5'' usd_options)
   \<and> options_inv (set_exchange_rate (\<lambda>s. Finite 83.5) [] DEFAULT_OPTIONS)"
proof -
  have inv: "options_inv usd_options"
    by (simp add: options_inv_def usd_options_def)
  have cur: "output_currency usd_options \<noteq> auto"
    by (simp add: usd_options_def)
  have ne: "INR \<noteq> auto" by simp
  have rate: "exchange_rate usd_options = Some (Finite 0.012)"
    by (simp add: usd_options_def)
  from set_output_currency_clears_rate
         [of usd_options INR False "\<lambda>s. Finite 83.5" "''83.5''"]
       set_output_currency_clears_rate
         [of usd_options auto False "\<lambda>s. Finite 83.5" "''83.5''"]
       set_output_currency_clears_rate
         [of DEFAULT_OPTIONS auto False "\<lambda>s. Finite 83.5" "[]"]
       inv cur ne rate
  show ?thesis by simp
qed

text \<open>
  C7 as stated fails in its last part: the default options satisfy the invariant, and the
  update of the exchange rate with the text \<^verbatim>\<open>83.5\<close> takes them to a state with the
  currency \<^verbatim>\<open>auto\<close> and the exchange rate 83.5.
\<close>

theorem set_exchange_rate_breaks_invariant_counterexample:
  "options_inv DEFAULT_OPTIONS
   \<and> output_currency (set_exchange_rate (\<lambda>s. Finite 83.5) ''83.5'' DEFAULT_OPTIONS) = auto
   \<and> exchange_rate (set_exchange_rate (\<lambda>s. Finite 83.5) ''83.5'' DEFAULT_OPTIONS)
       = Some (Finite 83.5)
   \<and> \<not> options_inv (set_exchange_rate (\<lambda>s. Finite 83.5) ''83.5'' DEFAULT_OPTIONS)"
  by (simp add: options_inv_def set_exchange_rate_def DEFAULT_OPTIONS_def)

subsection \<open>Progress estimator\<close>

lemma currentStep_target: "target (currentStep elapsed) \<in> {10, 30, 55, 70, 85}"
  by (simp add: currentStep_def steps_def)

lemma currentStep_target_le: "target (currentStep elapsed) \<le> 85"
  using currentStep_target [of elapsed] by auto

lemma currentStep_target_ge: "10 \<le> target (currentStep elapsed)"
  using currentStep_target [of elapsed] by auto

lemma progress_step_ge: "prev \<le> progress_step cs prev"
  by (simp add: progress_step_def Let_def min_def max_def)

lemma progress_step_le: "progress_step cs prev \<le> max prev (target cs)"
  by (simp add: progress_step_def Let_def min_def max_def)

text \<open>
  Neither bound depends on exact arithmetic: they hold for every rounding that is
  monotone, keeps the displayed value (a double already) and does not round the
  literal 0.3 below zero.
\<close>

lemma progress_step_rounded_identity: "progress_step_rounded (\<lambda>x. x) cs prev = progress_step cs prev"
  by (simp add: progress_step_rounded_def progress_step_def)

lemma progress_step_rounded_bounds:
  assumes mono: "\<And>x y. x \<le> y \<Longrightarrow> fl x \<le> fl y"
    and fixed: "fl prev = prev"
    and pos: "0 \<le> fl 0.3"
  shows "prev \<le> progress_step_rounded fl cs prev
         \<and> progress_step_rounded fl cs prev \<le> max prev (target cs)"
proof (cases "prev < target cs")
  case False
  then show ?thesis by (simp add: progress_step_rounded_def)
next
  case True
  define increment where "increment = max (fl 0.3) (fl (fl (target cs - prev) * fl 0.06))"
  have "0 \<le> increment" using pos by (simp add: increment_def max_def)
  then have "prev \<le> prev + increment" by simp
  from mono [OF this] fixed have "prev \<le> fl (prev + increment)" by simp
  with True have "prev \<le> min (target cs) (fl (prev + increment))" by simp
  moreover have "min (target cs) (fl (prev + increment)) \<le> max prev (target cs)" by simp
  ultimately show ?thesis
    using True by (simp add: progress_step_rounded_def Let_def increment_def)
qed

lemma progress_interval_callback:
  "progress (interval_callback now s) =
     (case progressIntervalRef s of
        None \<Rightarrow> progress s
      | Some startTime \<Rightarrow> progress_step (currentStep (now - startTime)) (progress s))"
  by (simp add: interval_callback_def Let_def split: option.split)

lemma progress_interval_callback_ge: "progress s \<le> progress (interval_callback now s)"
  by (simp add: progress_interval_callback progress_step_ge split: option.split)

lemma progress_interval_callback_le: "progress (interval_callback now s) \<le> max (progress s) 85"
proof (cases "progressIntervalRef s")
  case None
  then show ?thesis by (simp add: progress_interval_callback)
next
  case (Some startTime)
  have "progress_step (currentStep (now - startTime)) (progress s)
          \<le> max (progress s) (target (currentStep (now - startTime)))"
    by (rule progress_step_le)
  also have "\<dots> \<le> max (progress s) 85"
    using currentStep_target_le [of "now - startTime"] by simp
  finally show ?thesis using Some by (simp add: progress_interval_callback)
qed

lemma emitted_sorted: "sorted (progress s # emitted nows s)"
proof (induction nows arbitrary: s)
  case Nil
  show ?case by simp
next
  case (Cons now nows)
  have step: "progress s \<le> progress (interval_callback now s)"
    by (rule progress_interval_callback_ge)
  have rest: "sorted (progress (interval_callback now s) # emitted nows (interval_callback now s))"
    by (rule Cons.IH)
  from step rest show ?case by auto
qed

lemma emitted_bounded:
  "progress s \<le> b \<Longrightarrow> 85 \<le> b \<Longrightarrow> list_all (\<lambda>p. p \<le> b) (emitted nows s)"
proof (induction nows arbitrary: s)
  case Nil
  show ?case by simp
next
  case (Cons now nows)
  have "progress (interval_callback now s) \<le> max (progress s) 85"
    by (rule progress_interval_callback_le)
  with Cons.prems have le: "progress (interval_callback now s) \<le> b" by simp
  from Cons.IH [OF le Cons.prems(2)] le show ?case by simp
qed

lemma emitted_lower:
  "b \<le> progress s \<Longrightarrow> list_all (\<lambda>p. b \<le> p) (emitted nows s)"
proof (induction nows arbitrary: s)
  case Nil
  show ?case by simp
next
  case (Cons now nows)
  have "progress s \<le> progress (interval_callback now s)"
    by (rule progress_interval_callback_ge)
  with Cons.prems have le: "b \<le> progress (interval_callback now s)" by simp
  from Cons.IH [OF le] le show ?case by simp
qed

lemma progress_handleProcess_begin:
  "progress (handleProcess_begin now selectedFiles options s) = 0"
  by (simp add: handleProcess_begin_def startProgressSimulation_def clearProgressInterval_def)

lemma list_all_conj: "list_all P xs \<Longrightarrow> list_all Q xs \<Longrightarrow> list_all (\<lambda>x. P x \<and> Q x) xs"
  by (induction xs) simp_all

lemma list_all_mono: "list_all P xs \<Longrightarrow> (\<And>x. P x \<Longrightarrow> Q x) \<Longrightarrow> list_all Q xs"
  by (induction xs) simp_all

lemma emitted_run_range:
  "list_all (\<lambda>p. 0 \<le> p \<and> p \<le> 85)
     (emitted nows (handleProcess_begin now selectedFiles options s))"
proof -
  let ?s = "handleProcess_begin now selectedFiles options s"
  have p0: "progress ?s = 0" by (rule progress_handleProcess_begin)
  have lo: "list_all (\<lambda>p. 0 \<le> p) (emitted nows ?s)"
    by (rule emitted_lower) (simp add: p0)
  have hi: "list_all (\<lambda>p. p \<le> 85) (emitted nows ?s)"
    by (rule emitted_bounded) (simp_all add: p0)
  from lo hi show ?thesis by (rule list_all_conj)
qed

text \<open>
  C1. One run of the interval callback, while the interval is live, replaces the
  displayed value \<open>current\<close> by \<open>min target (current + max 0.3 ((target - current) * 0.06))\<close>
  when it is below the target of the current checkpoint, and leaves it unchanged
  otherwise. So no tick decreases the value, and none takes it beyond the larger of its
  old value and the highest checkpoint target, 85. The values emitted in any run are
  therefore non-decreasing; they stay at or below 100 when the run starts at or below
  100, and a run started by a submission, which resets the value to 0, stays within
  0 and 85.
\<close>

theorem progress_nondecreasing_bounded:
  "progress (interval_callback now s) =
     (case progressIntervalRef s of
        None \<Rightarrow> progress s
      | Some startTime \<Rightarrow>
          (let tgt = target (currentStep (now - startTime)); current = progress s
           in if current < tgt then min tgt (current + max 0.3 ((tgt - current) * 0.06))
              else current))
   \<and> list_all (\<lambda>st. target st \<le> 85) steps
   \<and> target (currentStep elapsed) \<le> 85
   \<and> progress s \<le> progress (interval_callback now s)
   \<and> progress (interval_callback now s) \<le> max (progress s) 85
   \<and> sorted (progress s # emitted nows s)
   \<and> list_all (\<lambda>p. p \<le> max (progress s) 100) (emitted nows s)
   \<and> sorted (emitted nows (handleProcess_begin now0 selectedFiles options s0))
   \<and> list_all (\<lambda>p. 0 \<le> p \<and> p \<le> 85)
        (emitted nows (handleProcess_begin now0 selectedFiles options s0))"
proof -
  have formula: "progress (interval_callback now s) =
     (case progressIntervalRef s of
        None \<Rightarrow> progress s
      | Some startTime \<Rightarrow>
          (let tgt = target (currentStep (now - startTime)); current = progress s
           in if current < tgt then min tgt (current + max 0.3 ((tgt - current) * 0.06))
              else current))"
    by (simp add: progress_interval_callback progress_step_def Let_def split: option.split)
  have table: "list_all (\<lambda>st. target st \<le> 85) steps"
    by (simp add: steps_def)
  have bound: "list_all (\<lambda>p. p \<le> max (progress s) 100) (emitted nows s)"
    by (rule emitted_bounded) simp_all
  have "sorted (progress (handleProcess_begin now0 selectedFiles options s0)
          # emitted nows (handleProcess_begin now0 selectedFiles options s0))"
    by (rule emitted_sorted)
  then have run_sorted: "sorted (emitted nows (handleProcess_begin now0 selectedFiles options s0))"
    by simp
  from formula table currentStep_target_le [of elapsed]
       progress_interval_callback_ge [of s now] progress_interval_callback_le [of now s]
       emitted_sorted [of s nows] bound run_sorted
       emitted_run_range [of nows now0 selectedFiles options s0]
  show ?thesis by blast
qed

lemma handleProcess_begin_initial:
  "handleProcess_begin 1000 two_files (Some DEFAULT_OPTIONS) initial_App =
     \<lparr> view = processing, files = two_files, lastOptions = Some DEFAULT_OPTIONS,
       progress = 0, progressMessage = [], error = None, result = None, jobId = [],
       toast = \<lparr> toast_open = False, toast_message = [], toast_severity = Error \<rparr>,
       progressIntervalRef = Some 1000,
       extract_calls = [(two_files, Some DEFAULT_OPTIONS)], results_timeout = False \<rparr>"
  by (simp add: handleProcess_begin_def startProgressSimulation_def
        clearProgressInterval_def initial_App_def)

lemma currentStep_early: "0 \<le> elapsed \<Longrightarrow> elapsed < 1500 \<Longrightarrow> currentStep elapsed = hd steps"
  by (simp add: currentStep_def steps_def)

lemma example_run_value:
  "example_run =
     \<lparr> view = processing, files = two_files, lastOptions = Some DEFAULT_OPTIONS,
       progress = 291 / 250, progressMessage = ''Uploading files...'', error = None,
       result = None, jobId = [],
       toast = \<lparr> toast_open = False, toast_message = [], toast_severity = Error \<rparr>,
       progressIntervalRef = Some 1000,
       extract_calls = [(two_files, Some DEFAULT_OPTIONS)], results_timeout = False \<rparr>"
  by (simp add: example_run_def handleProcess_begin_initial interval_callback_def
        currentStep_early progress_step_def steps_def Let_def)

lemma example_emitted:
  "emitted [1150, 1300] (handleProcess_begin 1000 two_files (Some DEFAULT_OPTIONS) initial_App)
     = [3 / 5, 291 / 250]"
  by (simp add: handleProcess_begin_initial interval_callback_def
        currentStep_early progress_step_def steps_def Let_def)

theorem progress_nondecreasing_bounded_witness:
  "emitted [1150, 1300] (handleProcess_begin 1000 two_files (Some DEFAULT_OPTIONS) initial_App)
     = [3 / 5, 291 / 250]
   \<and> sorted [3 / 5, 291 / (250 :: real)]
   \<and> list_all (\<lambda>p. 0 \<le> p \<and> p \<le> 85) [3 / 5, 291 / (250 :: real)]
   \<and> progress (interval_callback 1450 example_run) = 21177 / 12500
   \<and> progress example_run \<le> progress (interval_callback 1450 example_run)"
proof -
  note th = progress_nondecreasing_bounded
              [of 1450 example_run 0 "[1150, 1300]" 1000 two_files "Some DEFAULT_OPTIONS"
                  initial_App]
  have next_value: "progress (interval_callback 1450 example_run) = 21177 / 12500"
    by (simp add: example_run_value interval_callback_def currentStep_early
          progress_step_def steps_def Let_def)
  from th example_emitted next_value show ?thesis by simp
qed

subsection \<open>Orchestrator\<close>

lemma interval_callback_unchanged:
  "view (interval_callback now s) = view s
   \<and> files (interval_callback now s) = files s
   \<and> lastOptions (interval_callback now s) = lastOptions s
   \<and> error (interval_callback now s) = error s
   \<and> result (interval_callback now s) = result s
   \<and> jobId (interval_callback now s) = jobId s
   \<and> toast (interval_callback now s) = toast s
   \<and> progressIntervalRef (interval_callback now s) = progressIntervalRef s
   \<and> extract_calls (interval_callback now s) = extract_calls s
   \<and> results_timeout (interval_callback now s) = results_timeout s"
  by (simp add: interval_callback_def Let_def split: option.split)

lemma run_interval_unchanged:
  "view (run_interval nows s) = view s
   \<and> files (run_interval nows s) = files s
   \<and> lastOptions (run_interval nows s) = lastOptions s
   \<and> error (run_interval nows s) = error s
   \<and> result (run_interval nows s) = result s
   \<and> jobId (run_interval nows s) = jobId s
   \<and> toast (run_interval nows s) = toast s
   \<and> progressIntervalRef (run_interval nows s) = progressIntervalRef s
   \<and> extract_calls (run_interval nows s) = extract_calls s
   \<and> results_timeout (run_interval nows s) = results_timeout s"
  by (induction nows arbitrary: s) (simp_all add: interval_callback_unchanged)

lemma run_interval_progress_le:
  "progress (run_interval nows s) \<le> max (progress s) 85"
proof (induction nows arbitrary: s)
  case Nil
  show ?case by simp
next
  case (Cons now nows)
  have "progress (run_interval nows (interval_callback now s))
          \<le> max (progress (interval_callback now s)) 85"
    by (rule Cons.IH)
  also have "\<dots> \<le> max (progress s) 85"
    using progress_interval_callback_le [of now s] by simp
  finally show ?case by simp
qed

lemma in_flight_fields:
  "view (in_flight now fs opts nows s) = processing
   \<and> files (in_flight now fs opts nows s) = fs
   \<and> lastOptions (in_flight now fs opts nows s) = opts
   \<and> error (in_flight now fs opts nows s) = None
   \<and> result (in_flight now fs opts nows s) = None
   \<and> jobId (in_flight now fs opts nows s) = []
   \<and> toast (in_flight now fs opts nows s) = toast s
   \<and> progressIntervalRef (in_flight now fs opts nows s) = Some now
   \<and> extract_calls (in_flight now fs opts nows s) = extract_calls s @ [(fs, opts)]
   \<and> results_timeout (in_flight now fs opts nows s) = results_timeout s"
  by (simp add: in_flight_def run_interval_unchanged handleProcess_begin_def
        startProgressSimulation_def clearProgressInterval_def)

lemma in_flight_progress_le: "progress (in_flight now fs opts nows s) \<le> 85"
  using run_interval_progress_le [of nows "handleProcess_begin now fs opts s"]
  by (simp add: in_flight_def progress_handleProcess_begin)

lemma clearProgressInterval_fields:
  "clearProgressInterval s = s\<lparr> progressIntervalRef := None \<rparr>"
  by (simp add: clearProgressInterval_def)


lemma progress_settle:
  "progress (handleProcess_settle outcome s) =
     (if confirmed_success (Settle outcome) then 100 else progress s)"
  by (simp add: handleProcess_settle_def clearProgressInterval_fields settle_failed_def
        settle_done_def settle_caught_def status_failed_def Let_def
        split: Settled.split option.split)

lemma progress_tick_not_100:
  assumes "progress s \<noteq> 100"
  shows "progress (interval_callback now s) \<noteq> 100"
proof (cases "progressIntervalRef s")
  case None
  with assms show ?thesis by (simp add: progress_interval_callback)
next
  case (Some startTime)
  let ?cs = "currentStep (now - startTime)"
  show ?thesis
  proof (cases "progress s < target ?cs")
    case True
    then have "progress_step ?cs (progress s) \<le> target ?cs"
      by (simp add: progress_step_def Let_def)
    also have "\<dots> \<le> 85" by (rule currentStep_target_le)
    finally show ?thesis using Some by (simp add: progress_interval_callback)
  next
    case False
    then have "progress_step ?cs (progress s) = progress s"
      by (simp add: progress_step_def)
    with assms Some show ?thesis by (simp add: progress_interval_callback)
  qed
qed

lemma progress_handleRetry: "progress (handleRetry now s) = 0"
  by (simp add: handleRetry_def progress_handleProcess_begin)

lemma progress_handleReset: "progress (handleReset s) = 0"
  by (simp add: handleReset_def)

lemma progress_timeout_callback: "progress (timeout_callback s) = progress s"
  by (simp add: timeout_callback_def)

lemma progress_app_step:
  assumes "progress s \<noteq> 100"
  shows "(progress (app_step e s) = 100) = confirmed_success e"
proof (cases e)
  case (Submit now fs opts)
  then show ?thesis by (simp add: progress_handleProcess_begin)
next
  case (Tick now)
  with progress_tick_not_100 [OF assms] show ?thesis by simp
next
  case (Settle outcome)
  with assms show ?thesis by (simp add: progress_settle)
next
  case DelayElapsed
  with assms show ?thesis by (simp add: progress_timeout_callback)
next
  case (Retry now)
  then show ?thesis by (simp add: progress_handleRetry)
next
  case Reset
  then show ?thesis by (simp add: progress_handleReset)
next
  case ToastClosed
  with assms show ?thesis by (simp add: closeToast_def)
qed

lemma emitted_run_below_100:
  "list_all (\<lambda>p. p < 100) (emitted nows (handleProcess_begin now fs opts s))"
  by (rule list_all_mono [OF emitted_run_range]) simp

text \<open>
  C2. Every checkpoint target is below 100 and no value emitted by the estimator in a
  run started by a submission is 100. Among all events of the application, the only one
  that takes the progress from another value to 100 is the settling of the extraction
  call with a response whose result status is not \<^verbatim>\<open>'failed'\<close>: a run of the interval
  callback never does, nor does a failed response, a rejected call, a submission, the
  display delay, a retry, a reset or the closing of the toast.
\<close>

theorem only_confirmed_success_sets_100:
  "list_all (\<lambda>st. target st < 100) steps
   \<and> list_all (\<lambda>p. p < 100) (emitted nows (handleProcess_begin now0 selectedFiles options s0))
   \<and> (progress s \<noteq> 100 \<longrightarrow> progress (interval_callback now s) \<noteq> 100)
   \<and> (progress s \<noteq> 100 \<longrightarrow> (progress (app_step e s) = 100) = confirmed_success e)
   \<and> progress (handleProcess_settle outcome (in_flight now0 selectedFiles options nows s0))
       = (case outcome of
            Fulfilled jobStatus \<Rightarrow>
              if status_failed (js_result jobStatus)
              then progress (in_flight now0 selectedFiles options nows s0) else 100
          | Rejected err \<Rightarrow> progress (in_flight now0 selectedFiles options nows s0))
   \<and> progress (in_flight now0 selectedFiles options nows s0) < 100"
proof -
  have table: "list_all (\<lambda>st. target st < 100) steps"
    by (simp add: steps_def)
  have tick: "progress s \<noteq> 100 \<longrightarrow> progress (interval_callback now s) \<noteq> 100"
    using progress_tick_not_100 by blast
  have step: "progress s \<noteq> 100 \<longrightarrow> (progress (app_step e s) = 100) = confirmed_success e"
    using progress_app_step by blast
  have settle: "progress (handleProcess_settle outcome (in_flight now0 selectedFiles options nows s0))
       = (case outcome of
            Fulfilled jobStatus \<Rightarrow>
              if status_failed (js_result jobStatus)
              then progress (in_flight now0 selectedFiles options nows s0) else 100
          | Rejected err \<Rightarrow> progress (in_flight now0 selectedFiles options nows s0))"
    by (simp add: progress_settle split: Settled.split)
  have below: "progress (in_flight now0 selectedFiles options nows s0) < 100"
    using in_flight_progress_le [of now0 selectedFiles options nows s0] by simp
  from table emitted_run_below_100 [of nows now0 selectedFiles options s0] tick step settle below
  show ?thesis by blast
qed

lemma example_run_in_flight:
  "in_flight 1000 two_files (Some DEFAULT_OPTIONS) [1150, 1300] initial_App = example_run"
  by (simp add: in_flight_def example_run_def)

theorem only_confirmed_success_sets_100_witness:
  "progress example_run = 291 / 250
   \<and> progress (app_step (Tick 1450) example_run) = 21177 / 12500
   \<and> progress (app_step (Settle (Fulfilled success_job)) example_run) = 100
   \<and> progress (app_step (Settle (Fulfilled page_unreadable_job)) example_run) = 291 / 250
   \<and> progress (app_step (Settle (Rejected (ErrorObject ''Network Error''))) example_run)
       = 291 / 250"
proof -
  have p: "progress example_run = 291 / 250" by (simp add: example_run_value)
  then have ne: "progress example_run \<noteq> 100" by simp
  have tick: "progress (app_step (Tick 1450) example_run) = 21177 / 12500"
    by (simp add: example_run_value interval_callback_def currentStep_early
          progress_step_def steps_def Let_def)
  have ok: "confirmed_success (Settle (Fulfilled success_job))"
    by (simp add: success_job_def example_job_def example_result_def status_failed_def)
  have failed: "\<not> confirmed_success (Settle (Fulfilled page_unreadable_job))"
    by (simp add: page_unreadable_job_def example_job_def example_result_def status_failed_def)
  have s1: "progress (handleProcess_settle (Fulfilled page_unreadable_job) example_run)
              = 291 / 250"
    using failed p by (simp add: progress_settle)
  have s2: "progress (handleProcess_settle (Rejected (ErrorObject ''Network Error'')) example_run)
              = 291 / 250"
    using p by (simp add: progress_settle)
  from only_confirmed_success_sets_100
         [of "[1150, 1300]" 1000 two_files "Some DEFAULT_OPTIONS" initial_App example_run
             1450 "Settle (Fulfilled success_job)" "Fulfilled success_job"]
       ne ok p tick s1 s2
  show ?thesis by simp
qed

lemma join_single: "join sep [x] = x"
  by simp

lemma settle_failed_state:
  assumes "js_result jobStatus = Some r" and "status r = ''failed''"
  shows "view (handleProcess_settle (Fulfilled jobStatus) (in_flight now fs opts nows s0))
           = processing
         \<and> progressIntervalRef
             (handleProcess_settle (Fulfilled jobStatus) (in_flight now fs opts nows s0)) = None
         \<and> error (handleProcess_settle (Fulfilled jobStatus) (in_flight now fs opts nows s0))
             = Some (displayMsg r)
         \<and> result (handleProcess_settle (Fulfilled jobStatus) (in_flight now fs opts nows s0))
             = None
         \<and> results_timeout
             (handleProcess_settle (Fulfilled jobStatus) (in_flight now fs opts nows s0))
             = results_timeout s0
         \<and> retry_offered
             (handleProcess_settle (Fulfilled jobStatus) (in_flight now fs opts nows s0))
             = (displayMsg r \<noteq> [])"
  using assms
  by (simp add: handleProcess_settle_def clearProgressInterval_fields settle_failed_def
        Let_def in_flight_fields retry_offered_def retry_button_shown_def error_truthy_def)

lemma displayMsg_alt:
  "displayMsg r =
     (if errors r = [] \<and> warnings r = [] then ''Extraction failed. Please try again.''
      else join '' | '' (errors r @ warnings r))"
  by (simp add: displayMsg_def Let_def)

text \<open>
  The scenario of C3: the server fails with the single error \<^verbatim>\<open>"page unreadable"\<close> and no
  warnings. The message is exactly that text and the retry button is offered.
\<close>

lemma page_unreadable_scenario:
  "view (handleProcess_settle (Fulfilled page_unreadable_job) example_run) = processing
   \<and> error (handleProcess_settle (Fulfilled page_unreadable_job) example_run)
       = Some ''page unreadable''
   \<and> progressIntervalRef (handleProcess_settle (Fulfilled page_unreadable_job) example_run)
       = None
   \<and> retry_offered (handleProcess_settle (Fulfilled page_unreadable_job) example_run)"
proof -
  let ?r = "example_result ''failed'' empty_address [] [] [''page unreadable'']"
  have r: "js_result page_unreadable_job = Some ?r"
    by (simp add: page_unreadable_job_def example_job_def)
  have f: "status ?r = ''failed''" by (simp add: example_result_def)
  have m: "displayMsg ?r = ''page unreadable''"
    by (simp add: displayMsg_def example_result_def)
  from settle_failed_state [OF r f, of 1000 two_files "Some DEFAULT_OPTIONS" "[1150, 1300]"
         initial_App] m
  show ?thesis by (simp add: example_run_in_flight)
qed

text \<open>
  C3 at a failed result whose only error message is the empty string. The error state
  of the application is set to the empty string; the processing view takes it as no
  error: it shows neither the error alert nor the retry button, and it shows the step
  indicators as if the job were still running. The application stays in the processing
  view with the interval stopped and no transition to the results pending.
\<close>

theorem failed_with_empty_message_offers_no_retry:
  "status_failed (js_result empty_message_job)
   \<and> view (handleProcess_settle (Fulfilled empty_message_job) example_run) = processing
   \<and> progressIntervalRef (handleProcess_settle (Fulfilled empty_message_job) example_run) = None
   \<and> \<not> results_timeout (handleProcess_settle (Fulfilled empty_message_job) example_run)
   \<and> error (handleProcess_settle (Fulfilled empty_message_job) example_run) = Some []
   \<and> progressMessage (handleProcess_settle (Fulfilled empty_message_job) example_run)
       = ''Processing failed.''
   \<and> \<not> error_alert_shown (error (handleProcess_settle (Fulfilled empty_message_job) example_run))
   \<and> \<not> retry_button_shown
         (error (handleProcess_settle (Fulfilled empty_message_job) example_run)) True
   \<and> step_indicators_shown
         (error (handleProcess_settle (Fulfilled empty_message_job) example_run))
   \<and> \<not> retry_offered (handleProcess_settle (Fulfilled empty_message_job) example_run)"
  by (simp add: empty_message_job_def example_job_def example_result_def status_failed_def
        handleProcess_settle_def clearProgressInterval_fields settle_failed_def displayMsg_def
        Let_def example_run_value retry_offered_def retry_button_shown_def
        error_alert_shown_def step_indicators_shown_def error_truthy_def)

text \<open>
  C10. When the response carries no result (\<^verbatim>\<open>result = null\<close>), the settling takes the
  path of success: the interval is stopped, the progress is 100 with the message
  \<^verbatim>\<open>Done!\<close>, the job id of the response and a null result are stored, and the results
  view is entered when the display delay elapses (where nothing is rendered for a null
  result). No error is set, the toast is left as it was, and the retry button is offered
  neither before nor after the delay.
\<close>

theorem null_result_takes_success_path:
  "js_result jobStatus = None \<Longrightarrow>
     \<not> status_failed (js_result jobStatus)
     \<and> progressIntervalRef
         (handleProcess_settle (Fulfilled jobStatus) (in_flight now fs opts nows s0)) = None
     \<and> progress (handleProcess_settle (Fulfilled jobStatus) (in_flight now fs opts nows s0))
         = 100
     \<and> progressMessage
         (handleProcess_settle (Fulfilled jobStatus) (in_flight now fs opts nows s0)) = ''Done!''
     \<and> jobId (handleProcess_settle (Fulfilled jobStatus) (in_flight now fs opts nows s0))
         = js_job_id jobStatus
     \<and> result (handleProcess_settle (Fulfilled jobStatus) (in_flight now fs opts nows s0))
         = None
     \<and> error (handleProcess_settle (Fulfilled jobStatus) (in_flight now fs opts nows s0))
         = None
     \<and> toast (handleProcess_settle (Fulfilled jobStatus) (in_flight now fs opts nows s0))
         = toast s0
     \<and> view (handleProcess_settle (Fulfilled jobStatus) (in_flight now fs opts nows s0))
         = processing
     \<and> results_timeout
         (handleProcess_settle (Fulfilled jobStatus) (in_flight now fs opts nows s0))
     \<and> \<not> retry_offered
           (handleProcess_settle (Fulfilled jobStatus) (in_flight now fs opts nows s0))
     \<and> view (timeout_callback
           (handleProcess_settle (Fulfilled jobStatus) (in_flight now fs opts nows s0)))
         = results
     \<and> error (timeout_callback
           (handleProcess_settle (Fulfilled jobStatus) (in_flight now fs opts nows s0)))
         = None
     \<and> \<not> retry_offered (timeout_callback
           (handleProcess_settle (Fulfilled jobStatus) (in_flight now fs opts nows s0)))
     \<and> main_content (timeout_callback
           (handleProcess_settle (Fulfilled jobStatus) (in_flight now fs opts nows s0)))
         = Nothing"
  by (simp add: handleProcess_settle_def clearProgressInterval_fields settle_done_def
        warnings_toast_def status_failed_def in_flight_fields timeout_callback_def
        retry_offered_def retry_button_shown_def error_truthy_def main_content_def)

theorem null_result_takes_success_path_witness:
  "js_result null_result_job = None
   \<and> progress (handleProcess_settle (Fulfilled null_result_job) example_run) = 100
   \<and> jobId (handleProcess_settle (Fulfilled null_result_job) example_run) = ''job-1''
   \<and> result (handleProcess_settle (Fulfilled null_result_job) example_run) = None
   \<and> error (handleProcess_settle (Fulfilled null_result_job) example_run) = None
   \<and> \<not> retry_offered (handleProcess_settle (Fulfilled null_result_job) example_run)
   \<and> view (timeout_callback (handleProcess_settle (Fulfilled null_result_job) example_run))
       = results
   \<and> main_content
         (timeout_callback (handleProcess_settle (Fulfilled null_result_job) example_run))
       = Nothing"
proof -
  have n: "js_result null_result_job = None"
    by (simp add: null_result_job_def example_job_def)
  have j: "js_job_id null_result_job = ''job-1''"
    by (simp add: null_result_job_def example_job_def)
  from null_result_takes_success_path
         [OF n, of 1000 two_files "Some DEFAULT_OPTIONS" "[1150, 1300]" initial_App] n j
  show ?thesis by (simp add: example_run_in_flight)
qed

subsection \<open>Retry\<close>





















subsection \<open>Numeric formatting\<close>

declare nat_digits.simps [simp del]

lemma of_char_digit_char: "n < 10 \<Longrightarrow> (of_char (digit_char n) :: nat) = 48 + n"
  by (simp add: digit_char_def)

lemma is_digit_digit_char: "n < 10 \<Longrightarrow> is_digit (digit_char n)"
  by (simp add: is_digit_def of_char_digit_char)

lemma is_digit_not_point: "is_digit c \<Longrightarrow> c \<noteq> CHR ''.''"
  by (auto simp: is_digit_def)

lemma frac_digits_shape: "length (frac_digits d f) = d \<and> list_all is_digit (frac_digits d f)"
  by (induction d arbitrary: f) (simp_all add: is_digit_digit_char)

lemma nat_digits_digits: "list_all is_digit (nat_digits n)"
proof (induction n rule: nat_digits.induct)
  case (1 n)
  show ?case
  proof (cases "n < 10")
    case True
    then show ?thesis by (subst nat_digits.simps) (simp add: is_digit_digit_char)
  next
    case False
    with "1.IH" have "list_all is_digit (nat_digits (n div 10))" by simp
    with False show ?thesis by (subst nat_digits.simps) (simp add: is_digit_digit_char)
  qed
qed

lemma group_thousands_rev_set: "set (group_thousands_rev ds) \<subseteq> insert CHR '','' (set ds)"
  by (induction ds rule: group_thousands_rev.induct) auto

lemma no_point_in_integer_part: "CHR ''.'' \<notin> set (group_thousands (nat_digits n))"
proof
  assume "CHR ''.'' \<in> set (group_thousands (nat_digits n))"
  then have "CHR ''.'' \<in> set (group_thousands_rev (rev (nat_digits n)))"
    by (simp add: group_thousands_def)
  with group_thousands_rev_set [of "rev (nat_digits n)"]
  have "CHR ''.'' \<in> set (nat_digits n)" by auto
  with nat_digits_digits [of n] have "is_digit CHR ''.''"
    by (simp add: list_all_iff)
  then show False using is_digit_not_point by blast
qed

lemma decimal_places_after_point:
  assumes "CHR ''.'' \<notin> set pre" and "list_all is_digit fr"
  shows "decimal_places (pre @ CHR ''.'' # fr) = Some (length fr)"
proof -
  have "dropWhile (\<lambda>c. c \<noteq> CHR ''.'') (pre @ CHR ''.'' # fr) = CHR ''.'' # fr"
    using assms(1) by (induction pre) auto
  with assms(2) show ?thesis by (simp add: decimal_places_def)
qed

lemma decimal_places_format_fixed:
  assumes "0 < d"
  shows "decimal_places (format_fixed d x) = Some d"
proof -
  define n where "n = round_half_expand (\<bar>x\<bar> * 10 ^ d)"
  define pre where "pre = (if x < 0 then ''-'' else []) @ group_thousands (nat_digits (n div 10 ^ d))"
  have shape: "format_fixed d x = pre @ CHR ''.'' # frac_digits d (n mod 10 ^ d)"
    using assms by (simp add: format_fixed_def Let_def n_def pre_def)
  have "CHR ''.'' \<notin> set pre"
    using no_point_in_integer_part [of "n div 10 ^ d"] by (simp add: pre_def)
  from decimal_places_after_point [OF this, of "frac_digits d (n mod 10 ^ d)"]
       frac_digits_shape [of d "n mod 10 ^ d"]
  show ?thesis by (simp add: shape)
qed

lemma fmtCurrency_placeholder:
  "is_empty_value val \<or> number_of parseFloat val = NaN \<Longrightarrow> fmtCurrency parseFloat val = ''-''"
  by (cases val) (auto simp: fmtCurrency_num_def)

lemma fmtWeight_placeholder:
  "is_empty_value val \<or> number_of parseFloat val = NaN \<Longrightarrow> fmtWeight parseFloat val = ''-''"
  by (cases val) (auto simp: fmtWeight_num_def)

lemma fmtCurrency_finite:
  "\<not> is_empty_value val \<Longrightarrow> number_of parseFloat val = Finite x \<Longrightarrow>
     fmtCurrency parseFloat val = ''$'' @ format_fixed 2 x"
  by (cases val) (auto simp: fmtCurrency_num_def)

lemma fmtWeight_finite:
  "\<not> is_empty_value val \<Longrightarrow> number_of parseFloat val = Finite x \<Longrightarrow>
     fmtWeight parseFloat val = format_fixed 1 x @ '' kg''"
  by (cases val) (auto simp: fmtWeight_num_def)

lemma fmtCurrency_never_literal:
  "fmtCurrency parseFloat val \<noteq> ''NaN'' \<and> fmtCurrency parseFloat val \<noteq> ''null''"
  by (cases val) (auto simp: fmtCurrency_num_def)

lemma kg_suffix_not_literal: "body @ '' kg'' \<noteq> ''NaN'' \<and> body @ '' kg'' \<noteq> ''null''"
proof -
  have a: "body @ '' kg'' \<noteq> ''NaN''"
  proof
    assume "body @ '' kg'' = ''NaN''"
    then have "last (body @ '' kg'') = last ''NaN''" by (rule arg_cong)
    then show False by simp
  qed
  have b: "body @ '' kg'' \<noteq> ''null''"
  proof
    assume "body @ '' kg'' = ''null''"
    then have "last (body @ '' kg'') = last ''null''" by (rule arg_cong)
    then show False by simp
  qed
  from a b show ?thesis ..
qed

lemma fmtWeight_num_never_literal: "fmtWeight_num n \<noteq> ''NaN'' \<and> fmtWeight_num n \<noteq> ''null''"
  using kg_suffix_not_literal [of "toLocaleString 1 n"] by (simp add: fmtWeight_num_def)

lemma fmtWeight_never_literal:
  "fmtWeight parseFloat val \<noteq> ''NaN'' \<and> fmtWeight parseFloat val \<noteq> ''null''"
  by (cases val) (auto simp: fmtWeight_num_never_literal)

lemma v_alt:
  "v showNumber cv =
     (if is_empty_value (cv_value cv) then ''-'' else js_String showNumber (cv_value cv))"
  by (cases "cv_value cv") (simp_all add: v_def)

text \<open>
  C9, as the code has it. For a value that is, or is read by \<^verbatim>\<open>parseFloat\<close> as, a finite
  number, the monetary formatter returns the dollar sign followed by the number with
  exactly two decimal places, and the weight formatter returns the number with exactly
  one decimal place followed by \<^verbatim>\<open>" kg"\<close>. Both return the placeholder \<^verbatim>\<open>"-"\<close> for \<^verbatim>\<open>null\<close>,
  \<^verbatim>\<open>undefined\<close>, the empty string and a value that is or is read as \<^verbatim>\<open>NaN\<close>, and never
  return \<^verbatim>\<open>"NaN"\<close> or \<^verbatim>\<open>"null"\<close>. The generic accessor returns the placeholder for \<^verbatim>\<open>null\<close>,
  \<^verbatim>\<open>undefined\<close> and the empty string only; every other value is returned as
  \<^verbatim>\<open>String(value)\<close>, a non-empty string verbatim, numeric or not.
\<close>

theorem numeric_formatting:
  "(is_empty_value val \<or> number_of parseFloat val = NaN \<longrightarrow>
      fmtCurrency parseFloat val = ''-'' \<and> fmtWeight parseFloat val = ''-'')
   \<and> (\<not> is_empty_value val \<and> number_of parseFloat val = Finite x \<longrightarrow>
      fmtCurrency parseFloat val = ''$'' @ format_fixed 2 x
      \<and> decimal_places (format_fixed 2 x) = Some 2
      \<and> fmtWeight parseFloat val = format_fixed 1 x @ '' kg''
      \<and> decimal_places (format_fixed 1 x) = Some 1)
   \<and> fmtCurrency parseFloat val \<noteq> ''NaN'' \<and> fmtCurrency parseFloat val \<noteq> ''null''
   \<and> fmtWeight parseFloat val \<noteq> ''NaN'' \<and> fmtWeight parseFloat val \<noteq> ''null''
   \<and> v showNumber cv =
       (if is_empty_value (cv_value cv) then ''-'' else js_String showNumber (cv_value cv))
   \<and> (s \<noteq> [] \<longrightarrow> v showNumber \<lparr> cv_value = Str s, confidence = c \<rparr> = s)"
proof -
  have a: "is_empty_value val \<or> number_of parseFloat val = NaN \<longrightarrow>
      fmtCurrency parseFloat val = ''-'' \<and> fmtWeight parseFloat val = ''-''"
    using fmtCurrency_placeholder fmtWeight_placeholder by blast
  have d2: "decimal_places (format_fixed 2 x) = Some 2"
    by (rule decimal_places_format_fixed) simp
  have d1: "decimal_places (format_fixed 1 x) = Some 1"
    by (rule decimal_places_format_fixed) simp
  have b: "\<not> is_empty_value val \<and> number_of parseFloat val = Finite x \<longrightarrow>
      fmtCurrency parseFloat val = ''$'' @ format_fixed 2 x
      \<and> decimal_places (format_fixed 2 x) = Some 2
      \<and> fmtWeight parseFloat val = format_fixed 1 x @ '' kg''
      \<and> decimal_places (format_fixed 1 x) = Some 1"
    using fmtCurrency_finite [of val parseFloat x] fmtWeight_finite [of val parseFloat x] d1 d2
    by blast
  have e: "s \<noteq> [] \<longrightarrow> v showNumber \<lparr> cv_value = Str s, confidence = c \<rparr> = s"
    by (simp add: v_def)
  from a b fmtCurrency_never_literal [of parseFloat val] fmtWeight_never_literal [of parseFloat val]
       v_alt [of showNumber cv] e
  show ?thesis by blast
qed

lemma format_fixed_2_example: "format_fixed 2 1234.5 = ''1,234.50''"
proof -
  have r: "round_half_expand (\<bar>1234.5\<bar> * 10 ^ 2) = 123450"
    by (simp add: round_half_expand_def)
  have q: "(123450 :: nat) div 10 ^ 2 = 1234" and m: "(123450 :: nat) mod 10 ^ 2 = 50"
    by simp_all
  have d: "nat_digits 1234 = ''1234''" by code_simp
  have f: "frac_digits 2 50 = ''50''" by code_simp
  show ?thesis
    unfolding format_fixed_def Let_def r q m d f by (simp add: group_thousands_def)
qed

lemma format_fixed_1_example: "format_fixed 1 1234.5 = ''1,234.5''"
proof -
  have r: "round_half_expand (\<bar>1234.5\<bar> * 10 ^ 1) = 12345"
    by (simp add: round_half_expand_def)
  have q: "(12345 :: nat) div 10 ^ 1 = 1234" and m: "(12345 :: nat) mod 10 ^ 1 = 5"
    by simp_all
  have d: "nat_digits 1234 = ''1234''" by code_simp
  have f: "frac_digits 1 5 = ''5''" by code_simp
  show ?thesis
    unfolding format_fixed_def Let_def r q m d f by (simp add: group_thousands_def)
qed

theorem numeric_formatting_witness:
  "fmtCurrency (\<lambda>s. NaN) (Num (Finite 1234.5)) = ''$1,234.50''
   \<and> fmtWeight (\<lambda>s. NaN) (Num (Finite 1234.5)) = ''1,234.5 kg''
   \<and> fmtCurrency (\<lambda>s. Finite 1234.5) (Str ''1234.5'') = ''$1,234.50''
   \<and> fmtCurrency (\<lambda>s. NaN) (Str ''n/a'') = ''-''
   \<and> fmtWeight (\<lambda>s. NaN) Null = ''-''
   \<and> v (\<lambda>x. []) empty_cv = ''-''
   \<and> v (\<lambda>x. []) \<lparr> cv_value = Str ''610910'', confidence = Finite 1 \<rparr> = ''610910''"
proof -
  have n1: "\<not> is_empty_value (Num (Finite 1234.5))" by simp
  have n2: "number_of (\<lambda>s. NaN) (Num (Finite 1234.5)) = Finite 1234.5" by simp
  have n3: "\<not> is_empty_value (Str ''1234.5'')" by simp
  have n4: "number_of (\<lambda>s. Finite 1234.5) (Str ''1234.5'') = Finite 1234.5" by simp
  have n5: "number_of (\<lambda>s. NaN) (Str ''n/a'') = NaN" by simp
  have n6: "is_empty_value Null" by simp
  have n7: "is_empty_value (cv_value empty_cv)" by (simp add: empty_cv_def)
  have n8: "''610910'' \<noteq> []" by simp
  from numeric_formatting [of "Num (Finite 1234.5)" "\<lambda>s. NaN" "1234.5" "\<lambda>x. []" empty_cv
         "''610910''" "Finite 1"]
       numeric_formatting [of "Str ''1234.5''" "\<lambda>s. Finite 1234.5" "1234.5"]
       numeric_formatting [of "Str ''n/a''" "\<lambda>s. NaN"]
       numeric_formatting [of Null "\<lambda>s. NaN"]
       n1 n2 n3 n4 n5 n6 n7 n8 format_fixed_2_example format_fixed_1_example
  show ?thesis by simp
qed

text \<open>
  C9 as stated fails for the generic accessor: a non-numeric value such as the
  description of a line item is returned as it is, not as the placeholder, and the
  string \<^verbatim>\<open>"NaN"\<close> and the number \<^verbatim>\<open>NaN\<close> are both shown as \<^verbatim>\<open>NaN\<close>.
\<close>

theorem v_non_numeric_counterexample:
  "v (\<lambda>x. []) (description example_line_item) = ''Cotton shirts''
   \<and> v (\<lambda>x. []) (description example_line_item) \<noteq> ''-''
   \<and> v (\<lambda>x. []) \<lparr> cv_value = Str ''NaN'', confidence = Finite 1 \<rparr> = ''NaN''
   \<and> v (\<lambda>x. []) \<lparr> cv_value = Num NaN, confidence = Finite 1 \<rparr> = ''NaN''"
  by (simp add: v_def example_line_item_def)

end
